theory Spec2Isabelle
  imports Complex_Main "HOL-Library.AList" "HOL-Library.Multiset" "HOL-Library.Option_ord"
begin

section \<open>NDVI Monitoring App: a model of \<open>src/index.js\<close>\<close>

text \<open>
  The script is an Earth Engine Code Editor program. Its own code is the wiring of four
  globals (\<open>userAOI\<close>, \<open>startYear\<close>, \<open>points\<close>, \<open>pointCounter\<close>), four widgets
  with their callbacks, and five functions that compose Earth Engine library calls.
  The library is not part of the repository. Each library call is a function of this
  theory that does what the Earth Engine documentation says of the call; a call that can
  fail returns \<open>Inl\<close> of an error. Two behaviours of the library on which the
  specification of the script relies are taken from the specification, and marked so:
  the median of an empty collection, and the normalized difference where the sum of the
  two bands is zero. The catalogues, the geometry tests and the effect of \<open>Map.clear()\<close>
  are parameters (the record \<open>backend\<close> below).

  Numbers are exact rationals: the rounding of the platform's floating-point pixel
  arithmetic is outside this model.
\<close>

subsection \<open>Dates (\<open>ee.Date\<close>)\<close>

text \<open>
  The script builds dates only with \<open>ee.Date.fromYMD\<close>, so a date is kept as its
  calendar fields at 00:00 UTC. \<open>millis\<close> is the number of milliseconds since
  1970-01-01 in the proleptic Gregorian calendar, computed from the day number;
  \<open>civil_from_days\<close> reads the calendar fields of a day number back.
\<close>

record date =
  year :: int
  month :: int
  day :: int

definition Date_fromYMD :: "int \<Rightarrow> int \<Rightarrow> int \<Rightarrow> date" where
  "Date_fromYMD y m d = \<lparr>year = y, month = m, day = d\<rparr>"

definition days_from_civil :: "int \<Rightarrow> int \<Rightarrow> int \<Rightarrow> int" where
  "days_from_civil y m d =
     (let y' = (if m \<le> 2 then y - 1 else y);
          era = y' div 400;
          yoe = y' - era * 400;
          mp = (m + 9) mod 12;
          doy = (153 * mp + 2) div 5 + d - 1;
          doe = yoe * 365 + yoe div 4 - yoe div 100 + doy
      in era * 146097 + doe - 719468)"

definition civil_from_days :: "int \<Rightarrow> date" where
  "civil_from_days z =
     (let z' = z + 719468;
          era = z' div 146097;
          doe = z' - era * 146097;
          yoe = (doe - doe div 1460 + doe div 36524 - doe div 146096) div 365;
          y = yoe + era * 400;
          doy = doe - (365 * yoe + yoe div 4 - yoe div 100);
          mp = (5 * doy + 2) div 153;
          d = doy - (153 * mp + 2) div 5 + 1;
          m = (if mp < 10 then mp + 3 else mp - 9)
      in \<lparr>year = (if m \<le> 2 then y + 1 else y), month = m, day = d\<rparr>)"

definition msPerDay :: int where
  "msPerDay = 86400000"

definition Date_millis :: "date \<Rightarrow> int" where
  "Date_millis dt = days_from_civil (year dt) (month dt) (day dt) * msPerDay"

text \<open>The calendar date (UTC) of an instant given in milliseconds since the epoch.\<close>

definition date_of_millis :: "int \<Rightarrow> date" where
  "date_of_millis t = civil_from_days (t div msPerDay)"

text \<open>\<open>date.advance(n, 'year')\<close> on a date that is not 29 February.\<close>

definition Date_advance_year :: "int \<Rightarrow> date \<Rightarrow> date" where
  "Date_advance_year n dt = dt\<lparr>year := year dt + n\<rparr>"

text \<open>
  Decimal rendering of a natural number, as JavaScript's number-to-string conversion
  gives it for a non-negative integer.
\<close>

definition digit :: "nat \<Rightarrow> char" where
  "digit d = char_of (48 + d)"

fun decimal :: "nat \<Rightarrow> string" where
  "decimal n = (if n < 10 then [digit n] else decimal (n div 10) @ [digit (n mod 10)])"

declare decimal.simps [simp del]

text \<open>\<open>date.format('YYYY-MM')\<close> for a year of four digits.\<close>

definition pad2 :: "nat \<Rightarrow> string" where
  "pad2 n = (if n < 10 then CHR ''0'' # decimal n else decimal n)"

definition Date_format_YYYY_MM :: "date \<Rightarrow> string" where
  "Date_format_YYYY_MM dt = decimal (nat (year dt)) @ ''-'' @ pad2 (nat (month dt))"

subsection \<open>Images (\<open>ee.Image\<close>)\<close>

text \<open>
  A pixel is a number or masked (\<open>None\<close>). A band is a function from a position
  (longitude, latitude) to a pixel; an image is a list of named bands with a property
  list. A property value is a number or a string.
\<close>

datatype pval = PNum rat | PStr string

type_synonym position = "rat \<times> rat"

type_synonym band = "position \<Rightarrow> rat option"

record image =
  bands :: "(string \<times> band) list"
  props :: "(string \<times> pval) list"

datatype ee_error =
    MissingProperty string
  | NotANumber string
  | NoBandMatch string
  | MissingBand string
  | BandCountMismatch
  | Inhomogeneous

definition bandNames :: "image \<Rightarrow> string list" where
  "bandNames img = map fst (bands img)"

definition Image_get :: "image \<Rightarrow> string \<Rightarrow> pval option" where
  "Image_get img k = map_of (props img) k"

definition Image_set :: "image \<Rightarrow> string \<Rightarrow> pval \<Rightarrow> image" where
  "Image_set img k v = img\<lparr>props := AList.update k v (props img)\<rparr>"

definition propertyNames :: "image \<Rightarrow> string list" where
  "propertyNames img = map fst (props img)"

text \<open>\<open>ee.Number(img.get(k))\<close>: fails when the property is absent or not a number.\<close>

definition ee_Number :: "image \<Rightarrow> string \<Rightarrow> ee_error + rat" where
  "ee_Number img k =
     (case Image_get img k of
        None \<Rightarrow> Inl (MissingProperty k)
      | Some (PStr _) \<Rightarrow> Inl (NotANumber k)
      | Some (PNum x) \<Rightarrow> Inr x)"

definition Image_constant :: "rat \<Rightarrow> image" where
  "Image_constant x = \<lparr>bands = [(''constant'', \<lambda>p. Some x)], props = []\<rparr>"

text \<open>
  \<open>img.select(pattern)\<close> keeps the bands whose whole name matches the regular
  expression, in the image's order, and fails when no band matches. The two patterns
  of the script are given as predicates on band names.
\<close>

definition matches_SR_B_2_to_5 :: "string \<Rightarrow> bool" where
  "matches_SR_B_2_to_5 n = (n \<in> set [''SR_B2'', ''SR_B3'', ''SR_B4'', ''SR_B5''])"

definition matches_B_any :: "string \<Rightarrow> bool" where
  "matches_B_any n = (take 1 n = ''B'')"

definition Image_select :: "string \<Rightarrow> (string \<Rightarrow> bool) \<Rightarrow> image \<Rightarrow> ee_error + image" where
  "Image_select pattern matches img =
     (case filter (\<lambda>b. matches (fst b)) (bands img) of
        [] \<Rightarrow> Inl (NoBandMatch pattern)
      | bs \<Rightarrow> Inr (img\<lparr>bands := bs\<rparr>))"

text \<open>
  Pixel-wise arithmetic of an image with a one-band image (a constant): the one band is
  used against every band of the first; a pixel is masked when either input is.
\<close>

definition pixel_op :: "(rat \<Rightarrow> rat \<Rightarrow> rat) \<Rightarrow> rat option \<Rightarrow> rat option \<Rightarrow> rat option" where
  "pixel_op f a b =
     (case a of None \<Rightarrow> None | Some x \<Rightarrow> (case b of None \<Rightarrow> None | Some y \<Rightarrow> Some (f x y)))"

definition Image_arith :: "(rat \<Rightarrow> rat \<Rightarrow> rat) \<Rightarrow> image \<Rightarrow> image \<Rightarrow> ee_error + image" where
  "Image_arith f img c =
     (case bands c of
        [(_, cb)] \<Rightarrow>
          Inr (img\<lparr>bands := map (\<lambda>(n, b). (n, \<lambda>p. pixel_op f (b p) (cb p))) (bands img)\<rparr>)
      | _ \<Rightarrow> Inl BandCountMismatch)"

definition Image_multiply :: "image \<Rightarrow> image \<Rightarrow> ee_error + image" where
  "Image_multiply = Image_arith (\<lambda>x y. x * y)"

definition Image_add :: "image \<Rightarrow> image \<Rightarrow> ee_error + image" where
  "Image_add = Image_arith (\<lambda>x y. x + y)"

text \<open>
  \<open>img.normalizedDifference([a, b])\<close>: one band named \<open>nd\<close> holding
  \<open>(a - b) / (a + b)\<close>; the properties of the input are not kept; a pixel is masked when
  either input is masked or negative. What the platform stores where \<open>a + b = 0\<close> is
  the parameter \<open>zero\<close> of the model.
\<close>

definition nd_pixel :: "rat option \<Rightarrow> rat option \<Rightarrow> rat option \<Rightarrow> rat option" where
  "nd_pixel zero a b =
     (case a of
        None \<Rightarrow> None
      | Some x \<Rightarrow>
          (case b of
             None \<Rightarrow> None
           | Some y \<Rightarrow>
               if x < 0 \<or> y < 0 then None
               else if x + y = 0 then zero
               else Some ((x - y) / (x + y))))"

definition normalizedDifference :: "rat option \<Rightarrow> string \<Rightarrow> string \<Rightarrow> image \<Rightarrow> ee_error + image" where
  "normalizedDifference zero a b img =
     (case map_of (bands img) a of
        None \<Rightarrow> Inl (MissingBand a)
      | Some ba \<Rightarrow>
          (case map_of (bands img) b of
             None \<Rightarrow> Inl (MissingBand b)
           | Some bb \<Rightarrow>
               Inr \<lparr>bands = [(''nd'', \<lambda>p. nd_pixel zero (ba p) (bb p))], props = []\<rparr>))"

text \<open>
  Modelled from the spec: the code of \<open>normalizedDifference\<close> is the platform's and is
  not in the repository. The specification (sections 4.2 and 8) says of it that a pixel
  where \<open>NIR + RED = 0\<close> is masked: not NaN, not a default value, not a failure.
\<close>

definition nd_zero_masked :: "rat option" where
  "nd_zero_masked = None"

text \<open>\<open>img.rename(name)\<close> with one name: the image must have one band.\<close>

definition Image_rename :: "string \<Rightarrow> image \<Rightarrow> ee_error + image" where
  "Image_rename n img =
     (case bands img of
        [(_, b)] \<Rightarrow> Inr (img\<lparr>bands := [(n, b)]\<rparr>)
      | _ \<Rightarrow> Inl BandCountMismatch)"

text \<open>
  \<open>dest.copyProperties(src, names)\<close>: each named property of the source is set on the
  destination.
\<close>

definition copyProperties :: "image \<Rightarrow> image \<Rightarrow> string list \<Rightarrow> image" where
  "copyProperties dest src names =
     fold (\<lambda>k d. case Image_get src k of None \<Rightarrow> d | Some v \<Rightarrow> Image_set d k v) names dest"

subsection \<open>The per-image transforms\<close>

text \<open>
  \<open>processLandsat\<close> and \<open>processSentinel\<close>, statement by statement. A failing library
  call aborts the transform with its error. The local \<open>reflectance\<close> of each function is
  a function of its own, so that statements can speak of it.
\<close>

definition landsatReflectance :: "image \<Rightarrow> ee_error + image" where
  "landsatReflectance img =
     (case ee_Number img ''REFLECTANCE_MULT_BAND_4'' of
        Inl e \<Rightarrow> Inl e
      | Inr multBand \<Rightarrow>
     (case ee_Number img ''REFLECTANCE_ADD_BAND_4'' of
        Inl e \<Rightarrow> Inl e
      | Inr addBand \<Rightarrow>
     (case Image_select ''SR_B[2-5]'' matches_SR_B_2_to_5 img of
        Inl e \<Rightarrow> Inl e
      | Inr sel \<Rightarrow>
     (case Image_multiply sel (Image_constant multBand) of
        Inl e \<Rightarrow> Inl e
      | Inr scaled \<Rightarrow> Image_add scaled (Image_constant addBand)))))"

definition processLandsat :: "rat option \<Rightarrow> image \<Rightarrow> ee_error + image" where
  "processLandsat zero img =
     (case landsatReflectance img of
        Inl e \<Rightarrow> Inl e
      | Inr reflectance \<Rightarrow>
     (case normalizedDifference zero ''SR_B5'' ''SR_B4'' reflectance of
        Inl e \<Rightarrow> Inl e
      | Inr nd \<Rightarrow>
     (case Image_rename ''ndvi'' nd of
        Inl e \<Rightarrow> Inl e
      | Inr ndvi \<Rightarrow> Inr (copyProperties ndvi img (propertyNames img)))))"

definition sentinelReflectance :: "image \<Rightarrow> ee_error + image" where
  "sentinelReflectance img =
     (case Image_select ''B.*'' matches_B_any img of
        Inl e \<Rightarrow> Inl e
      | Inr sel \<Rightarrow> Image_multiply sel (Image_constant (1 / 10000)))"

definition processSentinel :: "rat option \<Rightarrow> image \<Rightarrow> ee_error + image" where
  "processSentinel zero img =
     (case sentinelReflectance img of
        Inl e \<Rightarrow> Inl e
      | Inr reflectance \<Rightarrow>
     (case normalizedDifference zero ''B8'' ''B4'' reflectance of
        Inl e \<Rightarrow> Inl e
      | Inr nd \<Rightarrow>
     (case Image_rename ''ndvi'' nd of
        Inl e \<Rightarrow> Inl e
      | Inr ndvi \<Rightarrow> Inr (copyProperties ndvi img (propertyNames img)))))"

subsection \<open>Image collections and the monthly aggregator\<close>

text \<open>
  A collection is the list of its images. \<open>collect\<close> gives the results of a mapped
  function, or the first error.
\<close>

fun collect :: "('e + 'a) list \<Rightarrow> 'e + 'a list" where
  "collect [] = Inr []"
| "collect (Inl e # _) = Inl e"
| "collect (Inr x # rs) = (case collect rs of Inl e \<Rightarrow> Inl e | Inr xs \<Rightarrow> Inr (x # xs))"

definition ImageCollection_map :: "(image \<Rightarrow> ee_error + image) \<Rightarrow> image list \<Rightarrow> ee_error + image list" where
  "ImageCollection_map f c = collect (map f c)"

text \<open>
  The acquisition instant of an image: its numeric property \<open>system:time_start\<close>, in
  milliseconds.
\<close>

definition timestamp_of :: "image \<Rightarrow> int option" where
  "timestamp_of img =
     (case Image_get img ''system:time_start'' of
        Some (PNum t) \<Rightarrow> Some (floor t)
      | _ \<Rightarrow> None)"

definition image_month :: "image \<Rightarrow> int option" where
  "image_month img = map_option (\<lambda>t. month (date_of_millis t)) (timestamp_of img)"

text \<open>
  \<open>ee.Filter.calendarRange(start, end, 'month')\<close>: the month of the image's timestamp
  lies in the range, which wraps around the end of the year when \<open>end < start\<close>. An
  image without a timestamp does not pass.
\<close>

definition Filter_calendarRange_month :: "int \<Rightarrow> int \<Rightarrow> image \<Rightarrow> bool" where
  "Filter_calendarRange_month lo hi img =
     (case image_month img of
        None \<Rightarrow> False
      | Some m \<Rightarrow> if lo \<le> hi then lo \<le> m \<and> m \<le> hi else lo \<le> m \<or> m \<le> hi)"

text \<open>\<open>collection.filterDate(start, end)\<close>: the timestamp lies in \<open>[start, end)\<close>.\<close>

definition filterDate :: "date \<Rightarrow> date \<Rightarrow> image list \<Rightarrow> image list" where
  "filterDate startDate endDate c =
     filter (\<lambda>img. case timestamp_of img of
                     None \<Rightarrow> False
                   | Some t \<Rightarrow> Date_millis startDate \<le> t \<and> t < Date_millis endDate) c"

text \<open>\<open>collection.sort('system:time_start')\<close>: ascending, stable.\<close>

definition sort_time_start :: "image list \<Rightarrow> image list" where
  "sort_time_start c = sort_key timestamp_of c"

text \<open>
  The median of the unmasked values: the middle one of an odd number of values, the
  mean of the two middle ones of an even number, masked when there is no value.
\<close>

definition median_list :: "rat list \<Rightarrow> rat option" where
  "median_list xs =
     (let s = sort xs; n = length s
      in if n = 0 then None
         else if odd n then Some (s ! (n div 2))
         else Some ((s ! (n div 2 - 1) + s ! (n div 2)) / 2))"

text \<open>
  The pixel of band \<open>n\<close> of an image at a position: \<open>Inr None\<close> when it is masked, and an
  error when the image has no band \<open>n\<close>.
\<close>

definition pixel_at :: "image \<Rightarrow> string \<Rightarrow> position \<Rightarrow> ee_error + rat option" where
  "pixel_at img n p =
     (case map_of (bands img) n of None \<Rightarrow> Inl (MissingBand n) | Some b \<Rightarrow> Inr (b p))"

text \<open>
  The unmasked values of band \<open>n\<close> at a position over the images of a collection, all of
  which have the band (the median below checks it before it reads a pixel).
\<close>

definition pixel_values :: "image list \<Rightarrow> string \<Rightarrow> position \<Rightarrow> rat list" where
  "pixel_values c n p =
     List.map_filter (\<lambda>img. case pixel_at img n p of Inl _ \<Rightarrow> None | Inr v \<Rightarrow> v) c"

text \<open>
  Modelled from the spec: the code of the reduction \<open>collection.median()\<close> is the
  platform's and is not in the repository, and what it returns for a collection without
  images is taken from the specification (sections 4.3 and 7): a fully-masked raster,
  not an error. The rasters that the script reduces are NDVI rasters, with the one band
  \<open>ndvi\<close>, so the fully-masked raster is given that band, masked at every position.
\<close>

definition median_of_none :: image where
  "median_of_none = \<lparr>bands = [(''ndvi'', \<lambda>p. None)], props = []\<rparr>"

text \<open>
  \<open>collection.median()\<close>: per band and per pixel, the median over the images. The
  bands keep their names and the result has no properties. All images must have the
  bands of the first one.
\<close>

definition ImageCollection_median :: "image list \<Rightarrow> ee_error + image" where
  "ImageCollection_median c =
     (case c of
        [] \<Rightarrow> Inr median_of_none
      | first # _ \<Rightarrow>
          if list_all (\<lambda>img. bandNames img = bandNames first) c
          then Inr \<lparr>bands = map (\<lambda>n. (n, \<lambda>p. median_list (pixel_values c n p))) (bandNames first),
                    props = []\<rparr>
          else Inl Inhomogeneous)"

text \<open>
  \<open>collection.toBands()\<close>: all bands of all images, in the order of the collection,
  each name prefixed with the id (\<open>system:index\<close>) of its image.
\<close>

definition image_id :: "image \<Rightarrow> string" where
  "image_id img = (case Image_get img ''system:index'' of Some (PStr i) \<Rightarrow> i | _ \<Rightarrow> [])"

definition toBands :: "image list \<Rightarrow> image" where
  "toBands c =
     \<lparr>bands = concat (map (\<lambda>img. map (\<lambda>(n, b). (image_id img @ ''_'' @ n, b)) (bands img)) c),
      props = []\<rparr>"

subsection \<open>Geometries, features, charts and widgets\<close>

text \<open>
  A geometry is a point made by \<open>ee.Geometry.Point\<close> or a shape drawn by the user, of
  a type \<open>'r\<close> that the model leaves open.
\<close>

datatype 'r geometry = Point rat rat | Drawn 'r

record 'r feature =
  geometry :: "'r geometry"
  properties :: "(string \<times> pval) list"

datatype reducer = Reducer_mean

record chart_options =
  title :: string
  hAxis_title :: string
  vAxis_title :: string
  legend_position :: string

text \<open>\<open>ui.Chart.image.series\<close> and \<open>ui.Chart.image.seriesByRegion\<close> with their arguments.\<close>

record 'r series_chart =
  sc_imageCollection :: "ee_error + image list"
  sc_region :: "'r geometry"
  sc_reducer :: reducer
  sc_scale :: nat
  sc_xProperty :: string
  sc_options :: chart_options

record 'r region_chart =
  rc_imageCollection :: "ee_error + image list"
  rc_regions :: "'r feature list"
  rc_reducer :: reducer
  rc_band :: string
  rc_scale :: nat
  rc_xProperty :: string
  rc_seriesProperty :: string
  rc_options :: chart_options

text \<open>
  A chart by region has one series for each region, labelled with the region's value of
  the series property.
\<close>

definition seriesLabels :: "'r region_chart \<Rightarrow> pval option list" where
  "seriesLabels ch = map (\<lambda>f. map_of (properties f) (rc_seriesProperty ch)) (rc_regions ch)"

text \<open>
  The argument of \<open>getDownloadURL\<close>; the URL that the platform returns stands for this
  request.
\<close>

record 'r download_request =
  dl_image :: image
  dl_format :: string
  dl_scale :: nat
  dl_region :: "'r geometry"

datatype 'r widget =
    Label string
  | Button string
  | Select "string list" string
  | SeriesChart "'r series_chart"
  | RegionChart "'r region_chart"
  | UrlLabel "'r download_request"

datatype 'r map_layer =
    GeometryLayer "'r geometry" string string
  | ImageLayer "ee_error + image" string

datatype listener = AddPointCallback

text \<open>The default map: its layers, click listeners, centre, and the drawing tools.\<close>

record 'r ui_map =
  layers :: "'r map_layer list"
  onClick_listeners :: "listener list"
  centre :: "'r geometry option"
  drawing_shape :: "string option"
  drawing_linked :: bool
  drawing_active :: bool
  drawing_layers :: "'r geometry list"

subsection \<open>The platform\<close>

text \<open>
  What the script takes from the platform: the three catalogues, the test whether an
  image's footprint meets a geometry (\<open>filterBounds\<close>), the test whether a position lies
  in a geometry (\<open>clip\<close>), the pixel value of \<open>normalizedDifference\<close> where the sum of
  the two bands is zero (\<open>nd_zero_masked\<close> on a platform that the specification
  describes), and the effect of \<open>Map.clear()\<close> on the map.
\<close>

record 'r backend =
  LANDSAT_LC08 :: "image list"
  LANDSAT_LC09 :: "image list"
  COPERNICUS_S2 :: "image list"
  intersects :: "'r geometry \<Rightarrow> image \<Rightarrow> bool"
  inside :: "'r geometry \<Rightarrow> position \<Rightarrow> bool"
  nd_zero :: "rat option"
  Map_clear :: "'r ui_map \<Rightarrow> 'r ui_map"

definition filterBounds :: "'r backend \<Rightarrow> 'r geometry \<Rightarrow> image list \<Rightarrow> image list" where
  "filterBounds bk g c = filter (intersects bk g) c"

definition Image_clip :: "'r backend \<Rightarrow> 'r geometry \<Rightarrow> image \<Rightarrow> image" where
  "Image_clip bk g img =
     img\<lparr>bands := map (\<lambda>(n, b). (n, \<lambda>p. if inside bk g p then b p else None)) (bands img)\<rparr>"

subsection \<open>The state of the script\<close>

text \<open>
  The four globals of the script, the default map, the control panel, the alerts shown
  by \<open>ui.alert\<close> and the errors thrown to the console.
\<close>

record 'r app_state =
  userAOI :: "'r geometry option"
  startYear :: int
  points :: "'r feature list"
  pointCounter :: nat
  theMap :: "'r ui_map"
  controlPanel :: "'r widget list"
  alerts :: "string list"
  console :: "ee_error list"

definition yearItems :: "string list" where
  "yearItems = [''2020'', ''2021'', ''2022'', ''2023'', ''2024'']"

definition init :: "'r app_state" where
  "init =
     \<lparr>userAOI = None,
      startYear = 2022,
      points = [],
      pointCounter = 0,
      theMap = \<lparr>layers = [], onClick_listeners = [], centre = None, drawing_shape = None,
                drawing_linked = False, drawing_active = False, drawing_layers = []\<rparr>,
      controlPanel =
        [Label ''NDVI Monitoring App'',
         Label ''1. Draw AOI.'',
         Label ''2. Select Start Year.'',
         Label ''3. Add Points for NDVI Comparison.'',
         Label ''4. Run Analysis and Export Results.'',
         Button ''Draw AOI'',
         Label ''Start Year:'',
         Select yearItems ''2022'',
         Button ''Add Points for NDVI Comparison'',
         Button ''Run Analysis''],
      alerts = [],
      console = []\<rparr>"

definition ui_alert :: "string \<Rightarrow> 'r app_state \<Rightarrow> 'r app_state" where
  "ui_alert msg s = s\<lparr>alerts := alerts s @ [msg]\<rparr>"

definition panel_add :: "'r widget \<Rightarrow> 'r app_state \<Rightarrow> 'r app_state" where
  "panel_add w s = s\<lparr>controlPanel := controlPanel s @ [w]\<rparr>"

definition Map_addLayer :: "'r map_layer \<Rightarrow> 'r app_state \<Rightarrow> 'r app_state" where
  "Map_addLayer l s = s\<lparr>theMap := (theMap s)\<lparr>layers := layers (theMap s) @ [l]\<rparr>\<rparr>"

subsection \<open>\<open>computeMonthlyNDVI\<close>\<close>

text \<open>
  The function mapped over the months, and the twelve composites. The year of the
  synthesized date is read from the global \<open>startYear\<close>.
\<close>

definition monthlyComposite :: "'r app_state \<Rightarrow> image list \<Rightarrow> int \<Rightarrow> ee_error + image" where
  "monthlyComposite s collection m =
     (case ImageCollection_median (filter (Filter_calendarRange_month m m) collection) of
        Inl e \<Rightarrow> Inl e
      | Inr filtered \<Rightarrow>
          let dt = Date_fromYMD (startYear s + 1) m 1
          in Inr (Image_set
                    (Image_set filtered ''system:time_start'' (PNum (of_int (Date_millis dt))))
                    ''system:index'' (PStr (Date_format_YYYY_MM dt))))"

definition computeMonthlyNDVI :: "'r app_state \<Rightarrow> image list \<Rightarrow> ee_error + image list" where
  "computeMonthlyNDVI s collection = collect (map (monthlyComposite s collection) [1..12])"

subsection \<open>\<open>performNDVIAnalysis\<close> and \<open>generateExportURL\<close>\<close>

text \<open>
  The merged and sorted collection of NDVI rasters of a year over an area (the local
  \<open>ndviCollection\<close>). \<open>merge\<close> appends the collections.
\<close>

definition ndviCollection :: "'r backend \<Rightarrow> 'r geometry \<Rightarrow> int \<Rightarrow> ee_error + image list" where
  "ndviCollection bk aoi yr =
     (let startDate = Date_fromYMD yr 1 1;
          endDate = Date_advance_year 1 startDate
      in case ImageCollection_map (processLandsat (nd_zero bk))
                (filterBounds bk aoi (filterDate startDate endDate (LANDSAT_LC08 bk))) of
           Inl e \<Rightarrow> Inl e
         | Inr landsat8 \<Rightarrow>
        (case ImageCollection_map (processLandsat (nd_zero bk))
                (filterBounds bk aoi (filterDate startDate endDate (LANDSAT_LC09 bk))) of
           Inl e \<Rightarrow> Inl e
         | Inr landsat9 \<Rightarrow>
        (case ImageCollection_map (processSentinel (nd_zero bk))
                (filterBounds bk aoi (filterDate startDate endDate (COPERNICUS_S2 bk))) of
           Inl e \<Rightarrow> Inl e
         | Inr sentinel2 \<Rightarrow> Inr (sort_time_start ((landsat8 @ landsat9) @ sentinel2)))))"

text \<open>The local \<open>monthlyNDVI\<close>, and \<open>ndviImage = monthlyNDVI.toBands().clip(aoi)\<close>.\<close>

definition monthlyNDVI :: "'r backend \<Rightarrow> 'r geometry \<Rightarrow> int \<Rightarrow> 'r app_state \<Rightarrow> ee_error + image list" where
  "monthlyNDVI bk aoi yr s =
     (case ndviCollection bk aoi yr of Inl e \<Rightarrow> Inl e | Inr c \<Rightarrow> computeMonthlyNDVI s c)"

definition ndviImage :: "'r backend \<Rightarrow> 'r geometry \<Rightarrow> ee_error + image list \<Rightarrow> ee_error + image" where
  "ndviImage bk aoi monthly =
     (case monthly of
        Inl e \<Rightarrow> Inl e
      | Inr ms \<Rightarrow> Inr (Image_clip bk aoi (toBands ms)))"

text \<open>
  \<open>getDownloadURL\<close> evaluates the image at once: an image whose computation fails makes
  it throw, which ends the callback, and the error goes to the console.
\<close>

definition generateExportURL :: "ee_error + image \<Rightarrow> 'r geometry \<Rightarrow> 'r app_state \<Rightarrow> 'r app_state" where
  "generateExportURL img aoi s =
     (case img of
        Inl e \<Rightarrow> s\<lparr>console := console s @ [e]\<rparr>
      | Inr i \<Rightarrow>
          let ndviExportUrl = \<lparr>dl_image = i, dl_format = ''GeoTIFF'', dl_scale = 30, dl_region = aoi\<rparr>
          in panel_add (UrlLabel ndviExportUrl)
               (panel_add (Label ''Export NDVI Map as GeoTIFF:'') s))"

definition aoiChart :: "ee_error + image list \<Rightarrow> 'r geometry \<Rightarrow> 'r series_chart" where
  "aoiChart monthly aoi =
     \<lparr>sc_imageCollection = monthly,
      sc_region = aoi,
      sc_reducer = Reducer_mean,
      sc_scale = 30,
      sc_xProperty = ''system:time_start'',
      sc_options = \<lparr>title = ''NDVI Trends Over Time (AOI)'', hAxis_title = ''Month'',
                    vAxis_title = ''NDVI'', legend_position = ''none''\<rparr>\<rparr>"

definition pointsChart :: "ee_error + image list \<Rightarrow> 'r feature list \<Rightarrow> 'r region_chart" where
  "pointsChart monthly pts =
     \<lparr>rc_imageCollection = monthly,
      rc_regions = pts,
      rc_reducer = Reducer_mean,
      rc_band = ''ndvi'',
      rc_scale = 30,
      rc_xProperty = ''system:time_start'',
      rc_seriesProperty = ''name'',
      rc_options = \<lparr>title = ''NDVI Comparison for Points'', hAxis_title = ''Month'',
                    vAxis_title = ''NDVI'', legend_position = ''right''\<rparr>\<rparr>"

text \<open>
  \<open>performNDVIAnalysis(aoi, year, points)\<close>. \<open>points.size().getInfo()\<close> is the number of
  features of the collection.
\<close>

definition performNDVIAnalysis :: "'r backend \<Rightarrow> 'r geometry \<Rightarrow> int \<Rightarrow> 'r feature list \<Rightarrow> 'r app_state \<Rightarrow> 'r app_state" where
  "performNDVIAnalysis bk aoi yr pts s =
     (let s1 = s\<lparr>theMap := Map_clear bk (theMap s)\<rparr>;
          s2 = s1\<lparr>theMap := (theMap s1)\<lparr>centre := Some aoi\<rparr>\<rparr>;
          monthly = monthlyNDVI bk aoi yr s2;
          img = ndviImage bk aoi monthly;
          s3 = Map_addLayer (ImageLayer img ''Monthly NDVI'') s2;
          s4 = panel_add (SeriesChart (aoiChart monthly aoi))
                 (panel_add (Label ''NDVI Trends Over Time (AOI):'') s3);
          s5 = (if length pts > 0
                then panel_add (RegionChart (pointsChart monthly pts))
                       (panel_add (Label ''NDVI Comparison for Points:'') s4)
                else s4)
      in generateExportURL img aoi s5)"

subsection \<open>The callbacks of the widgets\<close>

definition drawAOIButton_onClick :: "'r app_state \<Rightarrow> 'r app_state" where
  "drawAOIButton_onClick s =
     ui_alert ''Draw a rectangle on the map to define your AOI.''
       (s\<lparr>theMap := (theMap s)\<lparr>drawing_shape := Some ''rectangle'',
                                drawing_linked := True,
                                drawing_active := True\<rparr>\<rparr>)"

text \<open>
  \<open>parseInt(value, 10)\<close> on a string of one to fifteen decimal digits and nothing else:
  the result is the integer that the digits denote, which a JavaScript number holds
  exactly. Every other string (white space, a sign, other characters, a longer run of
  digits) is outside this model, and so is NaN: the result is \<open>None\<close>.
\<close>

definition is_digit :: "char \<Rightarrow> bool" where
  "is_digit c = (48 \<le> (of_char c :: nat) \<and> (of_char c :: nat) \<le> 57)"

definition digit_value :: "char \<Rightarrow> nat" where
  "digit_value c = of_char c - 48"

definition parseInt10 :: "string \<Rightarrow> int option" where
  "parseInt10 str =
     (if str \<noteq> [] \<and> length str \<le> 15 \<and> list_all is_digit str
      then Some (int (foldl (\<lambda>a c. 10 * a + digit_value c) 0 str))
      else None)"

text \<open>
  The callback of the year dropdown; \<open>None\<close> when the value is outside the model of
  \<open>parseInt\<close>, which no item of the dropdown is.
\<close>

definition yearDropdown_onChange :: "string \<Rightarrow> 'r app_state \<Rightarrow> 'r app_state option" where
  "yearDropdown_onChange v s = map_option (\<lambda>y. s\<lparr>startYear := y\<rparr>) (parseInt10 v)"

text \<open>The function given to \<open>Map.onClick\<close>, called with the clicked coordinates.\<close>

definition addPoint_callback :: "rat \<Rightarrow> rat \<Rightarrow> 'r app_state \<Rightarrow> 'r app_state" where
  "addPoint_callback lon lat s =
     (let s1 = s\<lparr>pointCounter := pointCounter s + 1\<rparr>;
          pointName = ''Point '' @ decimal (pointCounter s1);
          point = Point lon lat;
          feat = \<lparr>geometry = point, properties = [(''name'', PStr pointName)]\<rparr>;
          s2 = s1\<lparr>points := points s1 @ [feat]\<rparr>;
          s3 = Map_addLayer (GeometryLayer point ''red'' pointName) s2
      in ui_alert (''Point added! Total points: '' @ decimal (pointCounter s3)) s3)"

definition addPointButton_onClick :: "'r app_state \<Rightarrow> 'r app_state" where
  "addPointButton_onClick s =
     ui_alert ''Click on the map to add points for NDVI comparison.''
       (s\<lparr>theMap := (theMap s)\<lparr>onClick_listeners := onClick_listeners (theMap s) @ [AddPointCallback]\<rparr>\<rparr>)"

definition runAnalysisButton_onClick :: "'r backend \<Rightarrow> 'r app_state \<Rightarrow> 'r app_state" where
  "runAnalysisButton_onClick bk s =
     (case drawing_layers (theMap s) of
        [] \<Rightarrow> ui_alert ''Please draw an AOI before running the analysis.'' s
      | layer # _ \<Rightarrow>
          let s1 = s\<lparr>userAOI := Some layer\<rparr>
          in performNDVIAnalysis bk layer (startYear s1) (points s1) s1)"

subsection \<open>Events\<close>

text \<open>
  What the user can do: press one of the three buttons, choose an item of the dropdown,
  click on the map (every registered listener is called, in the order of registration),
  and edit the layers of the drawing tools.
\<close>

datatype 'r event =
    DrawAOIPressed
  | YearChosen string
  | AddPointsPressed
  | RunAnalysisPressed
  | MapClicked rat rat
  | LayersEdited "'r geometry list"

fun call_listener :: "rat \<Rightarrow> rat \<Rightarrow> listener \<Rightarrow> 'r app_state \<Rightarrow> 'r app_state" where
  "call_listener lon lat AddPointCallback s = addPoint_callback lon lat s"

definition mapClick :: "rat \<Rightarrow> rat \<Rightarrow> 'r app_state \<Rightarrow> 'r app_state" where
  "mapClick lon lat s = fold (call_listener lon lat) (onClick_listeners (theMap s)) s"

fun step :: "'r backend \<Rightarrow> 'r app_state \<Rightarrow> 'r event \<Rightarrow> 'r app_state" where
  "step bk s DrawAOIPressed = drawAOIButton_onClick s"
| "step bk s (YearChosen v) =
     (if v \<in> set yearItems
      then (case yearDropdown_onChange v s of Some s' \<Rightarrow> s' | None \<Rightarrow> s)
      else s)"
| "step bk s AddPointsPressed = addPointButton_onClick s"
| "step bk s RunAnalysisPressed = runAnalysisButton_onClick bk s"
| "step bk s (MapClicked lon lat) = mapClick lon lat s"
| "step bk s (LayersEdited ls) = s\<lparr>theMap := (theMap s)\<lparr>drawing_layers := ls\<rparr>\<rparr>"

definition run_events :: "'r backend \<Rightarrow> 'r app_state \<Rightarrow> 'r event list \<Rightarrow> 'r app_state" where
  "run_events bk s es = foldl (step bk) s es"

subsection \<open>Auxiliary definitions for the statements\<close>

text \<open>The day of the year, counted from 1 March, on which month \<open>m\<close> starts.\<close>

definition month_doy :: "int \<Rightarrow> int" where
  "month_doy m = (153 * ((m + 9) mod 12) + 2) div 5"

text \<open>A collection of NDVI rasters: every image has the one band \<open>ndvi\<close>.\<close>

definition ndvi_rasters :: "image list \<Rightarrow> bool" where
  "ndvi_rasters c = list_all (\<lambda>img. bandNames img = [''ndvi'']) c"

text \<open>
  The charts over time, the charts by region and the download requests among the
  widgets of a panel, in the order of the panel.
\<close>

fun seriesCharts :: "'r widget list \<Rightarrow> 'r series_chart list" where
  "seriesCharts [] = []"
| "seriesCharts (SeriesChart ch # ws) = ch # seriesCharts ws"
| "seriesCharts (_ # ws) = seriesCharts ws"

fun regionCharts :: "'r widget list \<Rightarrow> 'r region_chart list" where
  "regionCharts [] = []"
| "regionCharts (RegionChart ch # ws) = ch # regionCharts ws"
| "regionCharts (_ # ws) = regionCharts ws"

fun downloadRequests :: "'r widget list \<Rightarrow> 'r download_request list" where
  "downloadRequests [] = []"
| "downloadRequests (UrlLabel r # ws) = r # downloadRequests ws"
| "downloadRequests (_ # ws) = downloadRequests ws"

text \<open>
  The widgets that \<open>generateExportURL\<close> adds for an image.
\<close>

definition export_widgets :: "ee_error + image \<Rightarrow> 'r geometry \<Rightarrow> 'r widget list" where
  "export_widgets img aoi =
     (case img of
        Inl e \<Rightarrow> []
      | Inr i \<Rightarrow> [Label ''Export NDVI Map as GeoTIFF:'',
                  UrlLabel \<lparr>dl_image = i, dl_format = ''GeoTIFF'', dl_scale = 30, dl_region = aoi\<rparr>])"

text \<open>
  The feature that the click callback makes when the counter has reached \<open>k\<close>.
\<close>

definition pointFeature :: "rat \<Rightarrow> rat \<Rightarrow> nat \<Rightarrow> 'r feature" where
  "pointFeature lon lat k =
     \<lparr>geometry = Point lon lat, properties = [(''name'', PStr (''Point '' @ decimal k))]\<rparr>"

text \<open>
  \<open>reflectance = rawBand * gain + offset\<close> on a pixel, the NDVI ratio, and the image
  that keeps the bands of a band window, each band calibrated with the one gain and the
  one offset.
\<close>

definition calibrate :: "rat \<Rightarrow> rat \<Rightarrow> rat option \<Rightarrow> rat option" where
  "calibrate gain offset x = map_option (\<lambda>v. v * gain + offset) x"

definition ndvi_formula :: "rat \<Rightarrow> rat \<Rightarrow> rat" where
  "ndvi_formula nir red = (nir - red) / (nir + red)"

definition calibrated :: "rat \<Rightarrow> rat \<Rightarrow> (string \<Rightarrow> bool) \<Rightarrow> image \<Rightarrow> image" where
  "calibrated gain offset window img =
     img\<lparr>bands := map (\<lambda>(n, b). (n, \<lambda>p. calibrate gain offset (b p)))
                    (filter (\<lambda>b. window (fst b)) (bands img))\<rparr>"

text \<open>
  The NDVI band of an image with the given near-infrared and red bands, calibrated
  with one gain and one offset.
\<close>

definition ndviBand :: "rat option \<Rightarrow> rat \<Rightarrow> rat \<Rightarrow> band \<Rightarrow> band \<Rightarrow> band" where
  "ndviBand zero gain offset nir red p = nd_pixel zero (calibrate gain offset (nir p)) (calibrate gain offset (red p))"

text \<open>
  The \<open>name\<close> properties of a list of features, and the invariant of the point
  collection: the names are \<open>Point 1\<close>, ..., \<open>Point c\<close> for the point counter \<open>c\<close>.
\<close>

definition pointNames :: "'r feature list \<Rightarrow> pval option list" where
  "pointNames pts = map (\<lambda>f. map_of (properties f) ''name'') pts"

definition names_in_step :: "'r app_state \<Rightarrow> bool" where
  "names_in_step s \<longleftrightarrow>
     pointNames (points s) = map (\<lambda>k. Some (PStr (''Point '' @ decimal k))) [1..<Suc (pointCounter s)]"

text \<open>
  The rasters of a collection acquired in calendar month \<open>m\<close>, and the median of a month
  clipped to an area.
\<close>

definition month_subset :: "image list \<Rightarrow> int \<Rightarrow> image list" where
  "month_subset c m = filter (\<lambda>r. image_month r = Some m) c"

definition clipped_median :: "'r backend \<Rightarrow> 'r geometry \<Rightarrow> image list \<Rightarrow> int \<Rightarrow> band" where
  "clipped_median bk aoi c m p =
     (if inside bk aoi p then median_list (pixel_values (month_subset c m) ''ndvi'' p) else None)"

text \<open>
  The pixel of band \<open>n\<close> of the result of a computation that can fail: the failure when it
  failed.
\<close>

definition result_pixel :: "ee_error + image \<Rightarrow> string \<Rightarrow> position \<Rightarrow> ee_error + rat option" where
  "result_pixel r n p = (case r of Inl e \<Rightarrow> Inl e | Inr img \<Rightarrow> pixel_at img n p)"

text \<open>Sample rasters: one band \<open>ndvi\<close> of constant value \<open>v\<close>, acquired at instant \<open>t\<close>.\<close>

definition sample_ndvi :: "int \<Rightarrow> rat \<Rightarrow> image" where
  "sample_ndvi t v =
     \<lparr>bands = [(''ndvi'', \<lambda>p. Some v)], props = [(''system:time_start'', PNum (of_int t))]\<rparr>"

text \<open>
  A sample Landsat scene and a sample Sentinel-2 scene, a platform that holds them, the
  state after the user has drawn one area, and the NDVI rasters of the two scenes.
\<close>

definition sample_landsat :: image where
  "sample_landsat =
     \<lparr>bands = [(''SR_B1'', \<lambda>p. Some 8000), (''SR_B4'', \<lambda>p. Some 9000),
               (''SR_B5'', \<lambda>p. Some 20000), (''QA_PIXEL'', \<lambda>p. Some 21824)],
      props = [(''REFLECTANCE_MULT_BAND_4'', PNum (11 / 400000)),
               (''REFLECTANCE_ADD_BAND_4'', PNum (- 1 / 5)),
               (''system:time_start'', PNum 1641081600000),
               (''system:index'', PStr ''LC08_sample'')]\<rparr>"

definition sample_sentinel :: image where
  "sample_sentinel =
     \<lparr>bands = [(''B4'', \<lambda>p. Some 1000), (''B8'', \<lambda>p. Some 5000), (''SCL'', \<lambda>p. Some 4)],
      props = [(''system:time_start'', PNum 1643673600000),
               (''system:index'', PStr ''S2_sample'')]\<rparr>"

definition sample_backend :: "unit backend" where
  "sample_backend =
     \<lparr>LANDSAT_LC08 = [sample_landsat],
      LANDSAT_LC09 = [],
      COPERNICUS_S2 = [sample_sentinel],
      intersects = (\<lambda>g img. True),
      inside = (\<lambda>g p. True),
      nd_zero = None,
      Map_clear = (\<lambda>m. m\<lparr>layers := []\<rparr>)\<rparr>"

definition sample_state :: "unit app_state" where
  "sample_state = step sample_backend init (LayersEdited [Drawn ()])"

definition sample_landsat_ndvi :: image where
  "sample_landsat_ndvi =
     copyProperties
       \<lparr>bands = [(''ndvi'', ndviBand None (11 / 400000) (- 1 / 5) (\<lambda>p. Some 20000) (\<lambda>p. Some 9000))],
        props = []\<rparr>
       sample_landsat (propertyNames sample_landsat)"

definition sample_sentinel_ndvi :: image where
  "sample_sentinel_ndvi =
     copyProperties
       \<lparr>bands = [(''ndvi'', ndviBand None (1 / 10000) 0 (\<lambda>p. Some 5000) (\<lambda>p. Some 1000))],
        props = []\<rparr>
       sample_sentinel (propertyNames sample_sentinel)"

text \<open>
  A Landsat scene with a dark near-infrared pixel, and a Sentinel-2 scene whose
  near-infrared and red pixels are zero.
\<close>

definition sample_dark_landsat :: image where
  "sample_dark_landsat =
     \<lparr>bands = [(''SR_B4'', \<lambda>p. Some 9000), (''SR_B5'', \<lambda>p. Some 7000)],
      props = [(''REFLECTANCE_MULT_BAND_4'', PNum (11 / 400000)),
               (''REFLECTANCE_ADD_BAND_4'', PNum (- 1 / 5)),
               (''system:time_start'', PNum 1641081600000)]\<rparr>"

definition sample_zero_sentinel :: image where
  "sample_zero_sentinel =
     \<lparr>bands = [(''B4'', \<lambda>p. Some 0), (''B8'', \<lambda>p. Some 0)],
      props = [(''system:time_start'', PNum 1643673600000)]\<rparr>"

section \<open>Properties\<close>

subsection \<open>The calendar\<close>

text \<open>
  The calendar fields of the first day of a month are read back from its day number,
  for every year.
\<close>

lemma div_unique_int:
  fixes a b q :: int
  assumes "b * q \<le> a" "a < b * q + b"
  shows "a div b = q"
proof -
  have b: "0 < b" using assms by linarith
  have "a = q * b + (a - b * q)" by (simp add: mult.commute)
  moreover have "0 \<le> a - b * q" "a - b * q < b" using assms by auto
  ultimately have "a div b = q + (a - b * q) div b"
    by (metis b div_mult_self3 less_irrefl add.commute)
  then show ?thesis using \<open>0 \<le> a - b * q\<close> \<open>a - b * q < b\<close> by simp
qed

lemma yoe_roundtrip:
  fixes yoe doy :: int
  assumes y0: "0 \<le> yoe" and y1: "yoe < 400" and d0: "0 \<le> doy" and d1: "doy \<le> 337"
  defines "doe \<equiv> yoe * 365 + yoe div 4 - yoe div 100 + doy"
  shows "(doe - doe div 1460 + doe div 36524 - doe div 146096) div 365 = yoe"
    and "0 \<le> doe" and "doe < 146097"
proof -
  define c where "c = yoe div 100"
  define q where "q = yoe div 4"
  define k where "k = doe div 1460"
  have c: "100 * c \<le> yoe" "yoe < 100 * c + 100" unfolding c_def by linarith+
  have q: "4 * q \<le> yoe" "yoe < 4 * q + 4" unfolding q_def by linarith+
  have k: "1460 * k \<le> doe" "doe < 1460 * k + 1460" unfolding k_def by linarith+
  have doe: "doe = 365 * yoe + q - c + doy" unfolding doe_def c_def q_def by simp
  have e3: "doe div 146096 = 0"
    by (rule div_unique_int) (use doe c q y0 y1 d0 d1 in linarith)+
  have e2: "doe div 36524 = c"
    by (rule div_unique_int) (use doe c q y0 y1 d0 d1 in linarith)+
  have "(doe - k + c - 0) div 365 = yoe"
    by (rule div_unique_int) (use doe c q k y0 y1 d0 d1 in linarith)+
  then show "(doe - doe div 1460 + doe div 36524 - doe div 146096) div 365 = yoe"
    by (simp add: e2 e3 k_def)
  show "0 \<le> doe" "doe < 146097" using doe c q y0 y1 d0 d1 by linarith+
qed

lemma month_cases:
  fixes m :: int
  assumes "1 \<le> m" "m \<le> 12"
  shows "m = 1 \<or> m = 2 \<or> m = 3 \<or> m = 4 \<or> m = 5 \<or> m = 6 \<or> m = 7 \<or> m = 8 \<or> m = 9 \<or> m = 10 \<or> m = 11 \<or> m = 12"
  using assms by arith

lemma month_doy_props:
  fixes m :: int
  assumes "1 \<le> m" "m \<le> 12"
  shows "0 \<le> month_doy m" and "month_doy m \<le> 337"
    and "(5 * month_doy m + 2) div 153 = (m + 9) mod 12"
    and "(if (m + 9) mod 12 < 10 then (m + 9) mod 12 + 3 else (m + 9) mod 12 - 9) = m"
  using month_cases [OF assms] by (elim disjE; simp add: month_doy_def)+

lemma civil_roundtrip_first:
  fixes y m :: int
  assumes m: "1 \<le> m" "m \<le> 12"
  shows "civil_from_days (days_from_civil y m 1) = \<lparr>year = y, month = m, day = 1\<rparr>"
proof -
  define y' where "y' = (if m \<le> 2 then y - 1 else y)"
  define era where "era = y' div 400"
  define yoe where "yoe = y' - era * 400"
  define doy where "doy = month_doy m"
  define doe where "doe = yoe * 365 + yoe div 4 - yoe div 100 + doy"
  have yoe: "0 \<le> yoe" "yoe < 400" unfolding yoe_def era_def by linarith+
  have doy: "0 \<le> doy" "doy \<le> 337" using month_doy_props [OF m] by (simp_all add: doy_def)
  have dfc: "days_from_civil y m 1 = era * 146097 + doe - 719468"
    by (simp add: days_from_civil_def Let_def y'_def era_def yoe_def doe_def doy_def month_doy_def)
  note rt = yoe_roundtrip [OF yoe doy, folded doe_def]
  have era': "(era * 146097 + doe) div 146097 = era"
    by (rule div_unique_int) (use rt in linarith)+
  have doe': "era * 146097 + doe - era * 146097 = doe" by simp
  have doy': "doe - (365 * yoe + yoe div 4 - yoe div 100) = doy" by (simp add: doe_def)
  have mp: "(5 * doy + 2) div 153 = (m + 9) mod 12"
    and mm: "(if (m + 9) mod 12 < 10 then (m + 9) mod 12 + 3 else (m + 9) mod 12 - 9) = m"
    using month_doy_props [OF m] by (simp_all add: doy_def)
  have dd: "doy - (153 * ((m + 9) mod 12) + 2) div 5 + 1 = 1" by (simp add: doy_def month_doy_def)
  have yy: "(if m \<le> 2 then yoe + era * 400 + 1 else yoe + era * 400) = y"
    by (simp add: yoe_def y'_def)
  have z: "era * 146097 + doe - 719468 + 719468 = era * 146097 + doe" by simp
  show ?thesis
    unfolding dfc civil_from_days_def Let_def
    by (simp only: z era' doe' rt(1) doy' mp mm dd yy)
qed

lemma date_of_millis_fromYMD:
  assumes "1 \<le> m" "m \<le> 12"
  shows "date_of_millis (Date_millis (Date_fromYMD y m 1)) = \<lparr>year = y, month = m, day = 1\<rparr>"
  using civil_roundtrip_first [OF assms, of y]
  by (simp add: date_of_millis_def Date_millis_def Date_fromYMD_def msPerDay_def)

subsection \<open>The per-image transforms\<close>

lemma map_of_filter_fst:
  "map_of (filter (\<lambda>b. P (fst b)) xs) k = (if P k then map_of xs k else None)"
  by (induction xs) auto

lemma copyProperties_bands: "bands (copyProperties d src names) = bands d"
proof (induction names arbitrary: d)
  case Nil
  then show ?case by (simp add: copyProperties_def)
next
  case (Cons k names)
  then show ?case
    by (simp add: copyProperties_def Image_set_def split: option.splits)
qed

lemma copyProperties_get:
  "Image_get (copyProperties d src names) k =
     (if k \<in> set names \<and> Image_get src k \<noteq> None then Image_get src k else Image_get d k)"
proof (induction names arbitrary: d)
  case Nil
  then show ?case by (simp add: copyProperties_def)
next
  case (Cons n names)
  have step: "copyProperties d src (n # names)
                = copyProperties (case Image_get src n of None \<Rightarrow> d | Some v \<Rightarrow> Image_set d n v) src names"
    by (simp add: copyProperties_def)
  show ?case
    unfolding step Cons
    by (auto simp: Image_get_def Image_set_def update_conv split: option.splits)
qed

lemma copyProperties_all:
  assumes "props d = []"
  shows "Image_get (copyProperties d src (propertyNames src)) k = Image_get src k"
proof (cases "Image_get src k")
  case None
  have "Image_get d k = None" using assms by (simp add: Image_get_def)
  with None show ?thesis unfolding copyProperties_get by simp
next
  case (Some v)
  then have "k \<in> set (propertyNames src)"
    by (auto simp: Image_get_def propertyNames_def dest: map_of_SomeD intro: rev_image_eqI)
  with Some show ?thesis unfolding copyProperties_get by simp
qed

lemma Image_arith_constant:
  "Image_arith f img (Image_constant x) =
     Inr (img\<lparr>bands := map (\<lambda>(n, b). (n, \<lambda>p. pixel_op f (b p) (Some x))) (bands img)\<rparr>)"
  by (simp add: Image_arith_def Image_constant_def)

lemma Image_select_Inr:
  assumes "map_of (bands img) k = Some b" and "matches k"
  shows "Image_select pat matches img = Inr (img\<lparr>bands := filter (\<lambda>b. matches (fst b)) (bands img)\<rparr>)"
proof -
  have "map_of (filter (\<lambda>b. matches (fst b)) (bands img)) k = Some b"
    using assms by (simp add: map_of_filter_fst)
  then have "filter (\<lambda>b. matches (fst b)) (bands img) \<noteq> []" by auto
  then show ?thesis by (simp add: Image_select_def split: list.splits)
qed

lemma calibrate_pixel_op:
  "pixel_op (+) (pixel_op (*) x (Some g)) (Some a) = calibrate g a x"
  by (cases x) (simp_all add: pixel_op_def calibrate_def)

lemma scale_pixel_op:
  "pixel_op (*) x (Some g) = calibrate g 0 x"
  by (cases x) (simp_all add: pixel_op_def calibrate_def)

lemma ndviBand_fun:
  "ndviBand zero gain offset nir red
     = (\<lambda>p. nd_pixel zero (calibrate gain offset (nir p)) (calibrate gain offset (red p)))"
  by (intro ext) (simp add: ndviBand_def)

lemma normalizedDifference_Inr:
  assumes "map_of (bands img) a = Some ba" and "map_of (bands img) b = Some bb"
  shows "normalizedDifference zero a b img
           = Inr \<lparr>bands = [(''nd'', \<lambda>p. nd_pixel zero (ba p) (bb p))], props = []\<rparr>"
  using assms by (simp add: normalizedDifference_def)

lemma Image_rename_single:
  "Image_rename n \<lparr>bands = [(k, b)], props = ps\<rparr> = Inr \<lparr>bands = [(n, b)], props = ps\<rparr>"
  by (simp add: Image_rename_def)

lemma ee_Number_Inr_D: "ee_Number img k = Inr x \<Longrightarrow> Image_get img k = Some (PNum x)"
  by (auto simp: ee_Number_def split: option.splits pval.splits)

lemma Image_select_Inr_D:
  "Image_select pat matches img = Inr sel \<Longrightarrow> sel = img\<lparr>bands := filter (\<lambda>b. matches (fst b)) (bands img)\<rparr>"
  by (auto simp: Image_select_def split: list.splits)

lemma normalizedDifference_Inr_D:
  "normalizedDifference zero a b img = Inr nd
     \<Longrightarrow> \<exists>ba bb. map_of (bands img) a = Some ba \<and> map_of (bands img) b = Some bb"
  by (auto simp: normalizedDifference_def split: option.splits)

lemma bind_Inr_E:
  assumes "(case x of Inl e \<Rightarrow> Inl e | Inr v \<Rightarrow> f v) = Inr out"
  obtains v where "x = Inr v" and "f v = Inr out"
  using assms by (cases x) auto

lemma map_of_calibrated:
  "map_of (bands (calibrated gain offset P img)) k
     = (if P k then map_option (\<lambda>b p. calibrate gain offset (b p)) (map_of (bands img) k) else None)"
  unfolding calibrated_def by (simp add: map_of_map map_of_filter_fst)

lemma map_of_calibrated_D:
  assumes "map_of (bands (calibrated gain offset P img)) k = Some y"
  shows "\<exists>b. map_of (bands img) k = Some b"
  using assms unfolding map_of_calibrated by (auto split: if_splits)

lemma calibrated_arith:
  "Image_multiply (img\<lparr>bands := filter (\<lambda>b. P (fst b)) (bands img)\<rparr>) (Image_constant g)
     = Inr (calibrated g 0 P img)"
  "Image_add (calibrated g 0 P img) (Image_constant a) = Inr (calibrated g a P img)"
proof -
  show "Image_multiply (img\<lparr>bands := filter (\<lambda>b. P (fst b)) (bands img)\<rparr>) (Image_constant g)
     = Inr (calibrated g 0 P img)"
    by (simp add: Image_multiply_def Image_arith_constant scale_pixel_op calibrated_def)
  have c: "pixel_op (+) (calibrate g 0 x) (Some a) = calibrate g a x" for x
    by (cases x) (simp_all add: pixel_op_def calibrate_def)
  show "Image_add (calibrated g 0 P img) (Image_constant a) = Inr (calibrated g a P img)"
    by (simp add: Image_add_def Image_arith_constant calibrated_def c case_prod_unfold)
qed

lemma landsatReflectance_eq:
  assumes g: "Image_get img ''REFLECTANCE_MULT_BAND_4'' = Some (PNum gain)"
      and a: "Image_get img ''REFLECTANCE_ADD_BAND_4'' = Some (PNum offset)"
      and k: "map_of (bands img) k = Some b" "matches_SR_B_2_to_5 k"
  shows "landsatReflectance img = Inr (calibrated gain offset matches_SR_B_2_to_5 img)"
proof -
  have num1: "ee_Number img ''REFLECTANCE_MULT_BAND_4'' = Inr gain"
    by (simp add: ee_Number_def g)
  have num2: "ee_Number img ''REFLECTANCE_ADD_BAND_4'' = Inr offset"
    by (simp add: ee_Number_def a)
  have sel: "Image_select ''SR_B[2-5]'' matches_SR_B_2_to_5 img
               = Inr (img\<lparr>bands := filter (\<lambda>b. matches_SR_B_2_to_5 (fst b)) (bands img)\<rparr>)"
    by (rule Image_select_Inr [where matches = matches_SR_B_2_to_5, OF k])
  show ?thesis
    unfolding landsatReflectance_def
    by (simp only: num1 num2 sel calibrated_arith sum.case)
qed

lemma landsatReflectance_Inr_D:
  assumes "landsatReflectance img = Inr rfl"
  shows "\<exists>gain offset.
           Image_get img ''REFLECTANCE_MULT_BAND_4'' = Some (PNum gain)
         \<and> Image_get img ''REFLECTANCE_ADD_BAND_4'' = Some (PNum offset)
         \<and> rfl = calibrated gain offset matches_SR_B_2_to_5 img"
proof -
  from assms [unfolded landsatReflectance_def] obtain gain
    where g: "ee_Number img ''REFLECTANCE_MULT_BAND_4'' = Inr gain"
    by (rule bind_Inr_E)
  from assms [unfolded landsatReflectance_def g sum.case] obtain offset
    where a: "ee_Number img ''REFLECTANCE_ADD_BAND_4'' = Inr offset"
    by (rule bind_Inr_E)
  from assms [unfolded landsatReflectance_def g a sum.case] obtain sel
    where sel: "Image_select ''SR_B[2-5]'' matches_SR_B_2_to_5 img = Inr sel"
    by (rule bind_Inr_E)
  note sel' = sel [unfolded Image_select_Inr_D [OF sel]]
  from assms [unfolded landsatReflectance_def g a sel' calibrated_arith sum.case]
  have "rfl = calibrated gain offset matches_SR_B_2_to_5 img" by simp
  with ee_Number_Inr_D [OF g] ee_Number_Inr_D [OF a] show ?thesis by blast
qed

lemma sentinelReflectance_eq:
  assumes k: "map_of (bands img) k = Some b" "matches_B_any k"
  shows "sentinelReflectance img = Inr (calibrated (1 / 10000) 0 matches_B_any img)"
proof -
  have sel: "Image_select ''B.*'' matches_B_any img
               = Inr (img\<lparr>bands := filter (\<lambda>b. matches_B_any (fst b)) (bands img)\<rparr>)"
    by (rule Image_select_Inr [where matches = matches_B_any, OF k])
  show ?thesis
    unfolding sentinelReflectance_def
    by (simp only: sel calibrated_arith sum.case)
qed

lemma sentinelReflectance_Inr_D:
  assumes "sentinelReflectance img = Inr rfl"
  shows "rfl = calibrated (1 / 10000) 0 matches_B_any img"
proof -
  from assms [unfolded sentinelReflectance_def] obtain sel
    where sel: "Image_select ''B.*'' matches_B_any img = Inr sel"
    by (rule bind_Inr_E)
  note sel' = sel [unfolded Image_select_Inr_D [OF sel]]
  from assms [unfolded sentinelReflectance_def sel' calibrated_arith sum.case]
  show ?thesis by simp
qed

lemma processLandsat_eq:
  assumes g: "Image_get img ''REFLECTANCE_MULT_BAND_4'' = Some (PNum gain)"
      and a: "Image_get img ''REFLECTANCE_ADD_BAND_4'' = Some (PNum offset)"
      and n: "map_of (bands img) ''SR_B5'' = Some nir"
      and r: "map_of (bands img) ''SR_B4'' = Some red"
  shows "processLandsat zero img =
           Inr (copyProperties \<lparr>bands = [(''ndvi'', ndviBand zero gain offset nir red)], props = []\<rparr>
                  img (propertyNames img))"
proof -
  let ?rfl = "calibrated gain offset matches_SR_B_2_to_5 img"
  have m: "matches_SR_B_2_to_5 ''SR_B5''" "matches_SR_B_2_to_5 ''SR_B4''"
    by (simp_all add: matches_SR_B_2_to_5_def)
  have rfl: "landsatReflectance img = Inr ?rfl"
    by (rule landsatReflectance_eq [OF g a n m(1)])
  have cal5: "map_of (bands ?rfl) ''SR_B5'' = Some (\<lambda>p. calibrate gain offset (nir p))"
    unfolding map_of_calibrated using m n by simp
  have cal4: "map_of (bands ?rfl) ''SR_B4'' = Some (\<lambda>p. calibrate gain offset (red p))"
    unfolding map_of_calibrated using m r by simp
  note nd = normalizedDifference_Inr [OF cal5 cal4, of zero]
  show ?thesis
    unfolding processLandsat_def ndviBand_fun
    by (simp only: rfl nd Image_rename_single sum.case)
qed

lemma processSentinel_eq:
  assumes n: "map_of (bands img) ''B8'' = Some nir"
      and r: "map_of (bands img) ''B4'' = Some red"
  shows "processSentinel zero img =
           Inr (copyProperties \<lparr>bands = [(''ndvi'', ndviBand zero (1 / 10000) 0 nir red)], props = []\<rparr>
                  img (propertyNames img))"
proof -
  let ?rfl = "calibrated (1 / 10000) 0 matches_B_any img"
  have m: "matches_B_any ''B8''" "matches_B_any ''B4''"
    by (simp_all add: matches_B_any_def)
  have rfl: "sentinelReflectance img = Inr ?rfl"
    by (rule sentinelReflectance_eq [OF n m(1)])
  have cal8: "map_of (bands ?rfl) ''B8'' = Some (\<lambda>p. calibrate (1 / 10000) 0 (nir p))"
    unfolding map_of_calibrated using m n by simp
  have cal4: "map_of (bands ?rfl) ''B4'' = Some (\<lambda>p. calibrate (1 / 10000) 0 (red p))"
    unfolding map_of_calibrated using m r by simp
  note nd = normalizedDifference_Inr [OF cal8 cal4, of zero]
  show ?thesis
    unfolding processSentinel_def ndviBand_fun
    by (simp only: rfl nd Image_rename_single sum.case)
qed

lemma processLandsat_Inr_D:
  assumes "processLandsat zero img = Inr out"
  shows "\<exists>gain offset nir red.
           Image_get img ''REFLECTANCE_MULT_BAND_4'' = Some (PNum gain)
         \<and> Image_get img ''REFLECTANCE_ADD_BAND_4'' = Some (PNum offset)
         \<and> map_of (bands img) ''SR_B5'' = Some nir
         \<and> map_of (bands img) ''SR_B4'' = Some red"
proof -
  from assms [unfolded processLandsat_def] obtain rfl
    where rfl: "landsatReflectance img = Inr rfl"
      and rest: "(case normalizedDifference zero ''SR_B5'' ''SR_B4'' rfl of
                    Inl e \<Rightarrow> Inl e
                  | Inr nd \<Rightarrow>
                      (case Image_rename ''ndvi'' nd of
                         Inl e \<Rightarrow> Inl e
                       | Inr ndvi \<Rightarrow> Inr (copyProperties ndvi img (propertyNames img)))) = Inr out"
    by (rule bind_Inr_E)
  from rest obtain nd where nd: "normalizedDifference zero ''SR_B5'' ''SR_B4'' rfl = Inr nd"
    by (rule bind_Inr_E)
  from landsatReflectance_Inr_D [OF rfl] obtain gain offset where
        g: "Image_get img ''REFLECTANCE_MULT_BAND_4'' = Some (PNum gain)"
    and a: "Image_get img ''REFLECTANCE_ADD_BAND_4'' = Some (PNum offset)"
    and c: "rfl = calibrated gain offset matches_SR_B_2_to_5 img"
    by blast
  from normalizedDifference_Inr_D [OF nd] obtain ba bb
    where ba: "map_of (bands rfl) ''SR_B5'' = Some ba" and bb: "map_of (bands rfl) ''SR_B4'' = Some bb"
    by auto
  from map_of_calibrated_D [OF ba [unfolded c]] map_of_calibrated_D [OF bb [unfolded c]] g a
  show ?thesis by blast
qed

lemma processSentinel_Inr_D:
  assumes "processSentinel zero img = Inr out"
  shows "\<exists>nir red. map_of (bands img) ''B8'' = Some nir \<and> map_of (bands img) ''B4'' = Some red"
proof -
  from assms [unfolded processSentinel_def] obtain rfl
    where rfl: "sentinelReflectance img = Inr rfl"
      and rest: "(case normalizedDifference zero ''B8'' ''B4'' rfl of
                    Inl e \<Rightarrow> Inl e
                  | Inr nd \<Rightarrow>
                      (case Image_rename ''ndvi'' nd of
                         Inl e \<Rightarrow> Inl e
                       | Inr ndvi \<Rightarrow> Inr (copyProperties ndvi img (propertyNames img)))) = Inr out"
    by (rule bind_Inr_E)
  from rest obtain nd where nd: "normalizedDifference zero ''B8'' ''B4'' rfl = Inr nd"
    by (rule bind_Inr_E)
  note c = sentinelReflectance_Inr_D [OF rfl]
  from normalizedDifference_Inr_D [OF nd] obtain ba bb
    where ba: "map_of (bands rfl) ''B8'' = Some ba" and bb: "map_of (bands rfl) ''B4'' = Some bb"
    by auto
  from map_of_calibrated_D [OF ba [unfolded c]] map_of_calibrated_D [OF bb [unfolded c]]
  show ?thesis by blast
qed

lemma timestamp_of_cong:
  "Image_get a ''system:time_start'' = Image_get b ''system:time_start'' \<Longrightarrow> timestamp_of a = timestamp_of b"
  by (simp add: timestamp_of_def)

lemma ndvi_output_schema:
  assumes "out = copyProperties \<lparr>bands = [(''ndvi'', b)], props = []\<rparr> img (propertyNames img)"
  shows "bandNames out = [''ndvi'']" and "\<forall>k. Image_get out k = Image_get img k"
    and "timestamp_of out = timestamp_of img"
proof -
  show "bandNames out = [''ndvi'']"
    by (simp add: assms bandNames_def copyProperties_bands)
  show *: "\<forall>k. Image_get out k = Image_get img k"
    by (simp add: assms copyProperties_all)
  show "timestamp_of out = timestamp_of img"
    by (rule timestamp_of_cong) (simp add: *)
qed

lemma processLandsat_schema:
  assumes "processLandsat zero img = Inr out"
  shows "bandNames out = [''ndvi''] \<and> (\<forall>k. Image_get out k = Image_get img k)
         \<and> timestamp_of out = timestamp_of img"
proof -
  from processLandsat_Inr_D [OF assms] obtain gain offset nir red where
    "Image_get img ''REFLECTANCE_MULT_BAND_4'' = Some (PNum gain)"
    "Image_get img ''REFLECTANCE_ADD_BAND_4'' = Some (PNum offset)"
    "map_of (bands img) ''SR_B5'' = Some nir"
    "map_of (bands img) ''SR_B4'' = Some red" by blast
  from processLandsat_eq [OF this, of zero] assms
  have "out = copyProperties \<lparr>bands = [(''ndvi'', ndviBand zero gain offset nir red)], props = []\<rparr>
                img (propertyNames img)" by simp
  from ndvi_output_schema [OF this] show ?thesis by blast
qed

lemma processSentinel_schema:
  assumes "processSentinel zero img = Inr out"
  shows "bandNames out = [''ndvi''] \<and> (\<forall>k. Image_get out k = Image_get img k)
         \<and> timestamp_of out = timestamp_of img"
proof -
  from processSentinel_Inr_D [OF assms] obtain nir red where
    "map_of (bands img) ''B8'' = Some nir"
    "map_of (bands img) ''B4'' = Some red" by blast
  from processSentinel_eq [OF this, of zero] assms
  have "out = copyProperties \<lparr>bands = [(''ndvi'', ndviBand zero (1 / 10000) 0 nir red)], props = []\<rparr>
                img (propertyNames img)" by simp
  from ndvi_output_schema [OF this] show ?thesis by blast
qed

lemma nd_pixel_formula:
  assumes "0 \<le> x" "0 \<le> y" "x + y \<noteq> 0"
  shows "nd_pixel zero (Some x) (Some y) = Some (ndvi_formula x y)"
  using assms by (simp add: nd_pixel_def ndvi_formula_def)

lemma nd_pixel_negative:
  assumes "x < 0 \<or> y < 0"
  shows "nd_pixel zero (Some x) (Some y) = None"
  using assms by (auto simp: nd_pixel_def)

lemma nd_pixel_zero_sum:
  assumes "0 \<le> x" "0 \<le> y" "x + y = 0"
  shows "nd_pixel zero (Some x) (Some y) = zero"
  using assms by (simp add: nd_pixel_def)

lemma ndvi_formula_range:
  assumes "0 \<le> x" "0 \<le> y" "0 < x + y"
  shows "- 1 \<le> ndvi_formula x y \<and> ndvi_formula x y \<le> 1"
  using assms by (simp add: ndvi_formula_def pos_le_divide_eq pos_divide_le_eq)

lemma nd_pixel_masked_range:
  assumes "nd_pixel None a b = Some v"
  shows "- 1 \<le> v \<and> v \<le> 1"
proof -
  from assms obtain x y where xy: "a = Some x" "b = Some y" "0 \<le> x" "0 \<le> y" "x + y \<noteq> 0"
    and v: "v = ndvi_formula x y"
    by (auto simp: nd_pixel_def ndvi_formula_def split: option.splits if_splits)
  from xy have "0 < x + y" by simp
  from ndvi_formula_range [OF xy(3,4) this] v show ?thesis by simp
qed

lemma pixel_at_ndvi_output:
  "pixel_at (copyProperties \<lparr>bands = [(''ndvi'', b)], props = []\<rparr> img names) ''ndvi'' p = Inr (b p)"
  by (simp add: pixel_at_def copyProperties_bands)

lemma pixel_at_calibrated:
  assumes "map_of (bands img) k = Some b" and "P k"
  shows "pixel_at (calibrated gain offset P img) k p = Inr (calibrate gain offset (b p))"
  using assms by (simp add: pixel_at_def map_of_calibrated)

lemma pixel_at_calibrated_absent:
  assumes "\<not> P k"
  shows "pixel_at (calibrated gain offset P img) k p = Inl (MissingBand k)"
  using assms by (simp add: pixel_at_def map_of_calibrated)

lemma result_pixel_processLandsat:
  assumes "Image_get img ''REFLECTANCE_MULT_BAND_4'' = Some (PNum gain)"
      and "Image_get img ''REFLECTANCE_ADD_BAND_4'' = Some (PNum offset)"
      and "map_of (bands img) ''SR_B5'' = Some nir"
      and "map_of (bands img) ''SR_B4'' = Some red"
  shows "result_pixel (processLandsat zero img) ''ndvi'' p
           = Inr (nd_pixel zero (calibrate gain offset (nir p)) (calibrate gain offset (red p)))"
  unfolding processLandsat_eq [OF assms]
  by (simp add: result_pixel_def pixel_at_ndvi_output ndviBand_def)

lemma result_pixel_processSentinel:
  assumes "map_of (bands img) ''B8'' = Some nir"
      and "map_of (bands img) ''B4'' = Some red"
  shows "result_pixel (processSentinel zero img) ''ndvi'' p
           = Inr (nd_pixel zero (calibrate (1 / 10000) 0 (nir p)) (calibrate (1 / 10000) 0 (red p)))"
  unfolding processSentinel_eq [OF assms]
  by (simp add: result_pixel_def pixel_at_ndvi_output ndviBand_def)

lemma result_pixel_calibrated:
  assumes "map_of (bands img) k = Some b" and "P k"
  shows "result_pixel (Inr (calibrated gain offset P img)) k p = Inr (calibrate gain offset (b p))"
  using assms by (simp add: result_pixel_def pixel_at_calibrated)

lemma result_pixel_calibrated_absent:
  assumes "\<not> P k"
  shows "result_pixel (Inr (calibrated gain offset P img)) k p = Inl (MissingBand k)"
  using assms by (simp add: result_pixel_def pixel_at_calibrated_absent)

subsection \<open>The monthly aggregator\<close>

lemma collect_map_Inr: "collect (map Inr ys) = Inr ys"
  by (induction ys) simp_all

lemma collect_Inr_D: "collect rs = Inr ys \<Longrightarrow> rs = map Inr ys"
  by (induction rs arbitrary: ys rule: collect.induct) (auto split: sum.splits)

lemma collect_Inr_iff: "collect rs = Inr ys \<longleftrightarrow> rs = map Inr ys"
  using collect_map_Inr collect_Inr_D by metis

lemma collect_map_total:
  assumes "\<And>x. x \<in> set xs \<Longrightarrow> \<exists>y. f x = Inr y"
  shows "\<exists>ys. collect (map f xs) = Inr ys"
  using assms
proof (induction xs)
  case Nil
  then show ?case by simp
next
  case (Cons x xs)
  then obtain y where y: "f x = Inr y" by auto
  from Cons obtain ys where "collect (map f xs) = Inr ys" by auto
  with y show ?case by simp
qed

lemma months_1_12: "[1..12] = [1, 2, 3, 4, 5, 6, 7, 8, 9, 10, 11, 12 :: int]"
  by code_simp

lemma months_nth: "i < 12 \<Longrightarrow> [1..12] ! i = 1 + int i"
  by (simp add: nth_upto)

lemma computeMonthlyNDVI_nth:
  assumes "computeMonthlyNDVI s c = Inr comps"
  shows "length comps = 12"
    and "1 \<le> m \<Longrightarrow> m \<le> 12 \<Longrightarrow> monthlyComposite s c m = Inr (comps ! nat (m - 1))"
proof -
  from assms have eq: "map (monthlyComposite s c) [1..12] = map Inr comps"
    by (simp add: computeMonthlyNDVI_def collect_Inr_iff)
  from arg_cong [OF eq, of length] show len: "length comps = 12" by simp
  assume m: "1 \<le> m" "m \<le> 12"
  then have i: "nat (m - 1) < 12" by simp
  from arg_cong [OF eq, of "\<lambda>l. l ! nat (m - 1)"] i len m
  show "monthlyComposite s c m = Inr (comps ! nat (m - 1))"
    by simp
qed

lemma timestamp_of_set:
  "timestamp_of (Image_set (Image_set img ''system:time_start'' (PNum (of_int t))) ''system:index'' v) = Some t"
  by (simp add: timestamp_of_def Image_get_def Image_set_def update_conv)

lemma monthlyComposite_timestamp:
  assumes "monthlyComposite s c m = Inr mc"
  shows "timestamp_of mc = Some (Date_millis (Date_fromYMD (startYear s + 1) m 1))"
  using assms
  by (auto simp: monthlyComposite_def Let_def timestamp_of_set split: sum.splits)

lemma monthlyComposite_bands:
  assumes "monthlyComposite s c m = Inr mc"
  shows "\<exists>med. ImageCollection_median (filter (Filter_calendarRange_month m m) c) = Inr med
           \<and> bands mc = bands med"
  using assms
  by (auto simp: monthlyComposite_def Let_def Image_set_def split: sum.splits)

lemma ndvi_rasters_filter: "ndvi_rasters c \<Longrightarrow> ndvi_rasters (filter P c)"
  by (simp add: ndvi_rasters_def list_all_iff)

lemma median_ndvi:
  assumes "ndvi_rasters c"
  shows "ImageCollection_median c =
           Inr \<lparr>bands = [(''ndvi'', \<lambda>p. median_list (pixel_values c ''ndvi'' p))], props = []\<rparr>"
proof (cases c)
  case Nil
  then show ?thesis
    by (simp add: ImageCollection_median_def median_of_none_def pixel_values_def map_filter_simps
          median_list_def)
next
  case (Cons first rest)
  with assms have "list_all (\<lambda>img. bandNames img = bandNames first) c" "bandNames first = [''ndvi'']"
    by (auto simp: ndvi_rasters_def list_all_iff)
  with Cons show ?thesis by (simp add: ImageCollection_median_def)
qed

lemma median_list_perm:
  assumes "mset xs = mset ys"
  shows "median_list xs = median_list ys"
proof -
  have "sort xs = sort ys"
    by (rule properties_for_sort) (simp_all add: assms)
  then show ?thesis by (simp add: median_list_def)
qed

lemma pixel_values_perm:
  assumes "mset c = mset c'"
  shows "mset (pixel_values c n p) = mset (pixel_values c' n p)"
  using assms by (simp add: pixel_values_def List.map_filter_def)

lemma median_pixel_perm:
  assumes "mset c = mset c'"
  shows "median_list (pixel_values c n p) = median_list (pixel_values c' n p)"
  by (rule median_list_perm) (rule pixel_values_perm [OF assms])

lemma median_nonempty:
  assumes "c \<noteq> []"
  shows "ImageCollection_median c =
           (if list_all (\<lambda>img. bandNames img = bandNames (hd c)) c
            then Inr \<lparr>bands = map (\<lambda>n. (n, \<lambda>p. median_list (pixel_values c n p))) (bandNames (hd c)),
                      props = []\<rparr>
            else Inl Inhomogeneous)"
  using assms by (cases c) (simp_all add: ImageCollection_median_def)

lemma median_perm:
  assumes "mset c = mset c'"
  shows "ImageCollection_median c = ImageCollection_median c'"
proof (cases "c = []")
  case True
  with assms have "c' = []" by simp
  with True show ?thesis by simp
next
  case False
  have ne': "c' \<noteq> []"
  proof
    assume "c' = []"
    with assms have "mset c = {#}" by simp
    with False show False by simp
  qed
  have sets: "set c = set c'" using assms by (rule mset_eq_setD)
  have mem: "hd c \<in> set c'" "hd c' \<in> set c"
    using hd_in_set [OF False] hd_in_set [OF ne'] sets by simp_all
  have px: "(\<lambda>n. (n, \<lambda>p. median_list (pixel_values c n p))) = (\<lambda>n. (n, \<lambda>p. median_list (pixel_values c' n p)))"
    by (simp add: median_pixel_perm [OF assms])
  show ?thesis
  proof (cases "list_all (\<lambda>img. bandNames img = bandNames (hd c)) c")
    case True
    then have all: "\<And>x. x \<in> set c \<Longrightarrow> bandNames x = bandNames (hd c)"
      unfolding list_all_iff by blast
    have names: "bandNames (hd c') = bandNames (hd c)"
      using all mem(2) by blast
    have "\<And>x. x \<in> set c' \<Longrightarrow> bandNames x = bandNames (hd c)"
      using all sets by blast
    then have T': "list_all (\<lambda>img. bandNames img = bandNames (hd c)) c'"
      unfolding list_all_iff by blast
    show ?thesis
      unfolding median_nonempty [OF False] median_nonempty [OF ne']
      by (simp only: names True T' if_True px)
  next
    case F: False
    then obtain x where x: "x \<in> set c" "bandNames x \<noteq> bandNames (hd c)"
      unfolding list_all_iff by blast
    have "\<not> list_all (\<lambda>img. bandNames img = bandNames (hd c')) c'"
    proof
      assume "list_all (\<lambda>img. bandNames img = bandNames (hd c')) c'"
      then have all': "\<And>y. y \<in> set c' \<Longrightarrow> bandNames y = bandNames (hd c')"
        unfolding list_all_iff by blast
      from all' [of x] all' [of "hd c"] x mem(1) sets show False by simp
    qed
    with F show ?thesis
      unfolding median_nonempty [OF False] median_nonempty [OF ne']
      by (simp only: if_False)
  qed
qed

lemma monthlyComposite_perm:
  assumes "mset c = mset c'"
  shows "monthlyComposite s c = monthlyComposite s c'"
proof (rule ext)
  fix m
  have "mset (filter (Filter_calendarRange_month m m) c) = mset (filter (Filter_calendarRange_month m m) c')"
    using assms by simp
  from median_perm [OF this] show "monthlyComposite s c m = monthlyComposite s c' m"
    by (simp add: monthlyComposite_def)
qed

lemma computeMonthlyNDVI_perm:
  assumes "mset c = mset c'"
  shows "computeMonthlyNDVI s c = computeMonthlyNDVI s c'"
  by (simp add: computeMonthlyNDVI_def monthlyComposite_perm [OF assms])

lemma monthlyComposite_total:
  assumes "ndvi_rasters c"
  shows "\<exists>mc. monthlyComposite s c m = Inr mc"
  by (simp add: monthlyComposite_def Let_def median_ndvi [OF ndvi_rasters_filter [OF assms]])

lemma computeMonthlyNDVI_total:
  assumes "ndvi_rasters c"
  shows "\<exists>comps. computeMonthlyNDVI s c = Inr comps"
  unfolding computeMonthlyNDVI_def
  by (rule collect_map_total) (rule monthlyComposite_total [OF assms])

lemma image_month_composite:
  assumes "monthlyComposite s c m = Inr mc" "1 \<le> m" "m \<le> 12"
  shows "image_month mc = Some m"
  using monthlyComposite_timestamp [OF assms(1)] date_of_millis_fromYMD [OF assms(2,3)]
  by (simp add: image_month_def)

lemma computeMonthlyNDVI_months:
  assumes "computeMonthlyNDVI s c = Inr comps"
  shows "map image_month comps = map Some [1..12]"
proof (rule nth_equalityI)
  show "length (map image_month comps) = length (map Some [1..12])"
    using computeMonthlyNDVI_nth(1) [OF assms] by simp
next
  fix i assume "i < length (map image_month comps)"
  then have i: "i < 12" using computeMonthlyNDVI_nth(1) [OF assms] by simp
  then have m: "1 \<le> 1 + int i" "1 + int i \<le> 12" by simp_all
  from computeMonthlyNDVI_nth(2) [OF assms m]
  have "monthlyComposite s c (1 + int i) = Inr (comps ! i)" by simp
  from image_month_composite [OF this m] i computeMonthlyNDVI_nth(1) [OF assms]
  show "map image_month comps ! i = map Some [1..12] ! i" by simp
qed

subsection \<open>The analysis run\<close>

lemma seriesCharts_append: "seriesCharts (xs @ ys) = seriesCharts xs @ seriesCharts ys"
  by (induction xs rule: seriesCharts.induct) simp_all

lemma regionCharts_append: "regionCharts (xs @ ys) = regionCharts xs @ regionCharts ys"
  by (induction xs rule: regionCharts.induct) simp_all

lemma downloadRequests_append: "downloadRequests (xs @ ys) = downloadRequests xs @ downloadRequests ys"
  by (induction xs rule: downloadRequests.induct) simp_all

lemma monthlyComposite_startYear:
  assumes "startYear s' = startYear s"
  shows "monthlyComposite s' = monthlyComposite s"
  by (intro ext) (simp add: monthlyComposite_def assms split: sum.splits)

lemma monthlyNDVI_startYear:
  assumes "startYear s' = startYear s"
  shows "monthlyNDVI bk aoi yr s' = monthlyNDVI bk aoi yr s"
  by (simp add: monthlyNDVI_def computeMonthlyNDVI_def monthlyComposite_startYear [OF assms]
        split: sum.splits)

lemma generateExportURL_panel:
  "controlPanel (generateExportURL img aoi s) = controlPanel s @ export_widgets img aoi"
  by (simp add: generateExportURL_def export_widgets_def panel_add_def Let_def split: sum.splits)

lemma performNDVIAnalysis_panel:
  "controlPanel (performNDVIAnalysis bk aoi yr pts s) =
     controlPanel s
     @ [Label ''NDVI Trends Over Time (AOI):'', SeriesChart (aoiChart (monthlyNDVI bk aoi yr s) aoi)]
     @ (if pts = [] then []
        else [Label ''NDVI Comparison for Points:'', RegionChart (pointsChart (monthlyNDVI bk aoi yr s) pts)])
     @ export_widgets (ndviImage bk aoi (monthlyNDVI bk aoi yr s)) aoi"
proof -
  have m: "monthlyNDVI bk aoi yr (s\<lparr>theMap := (Map_clear bk (theMap s))\<lparr>centre := Some aoi\<rparr>\<rparr>) = monthlyNDVI bk aoi yr s"
    by (rule monthlyNDVI_startYear) simp
  show ?thesis
    by (simp add: performNDVIAnalysis_def Let_def m generateExportURL_panel panel_add_def Map_addLayer_def)
qed

lemma generateExportURL_frame:
  "userAOI (generateExportURL img aoi s) = userAOI s
   \<and> startYear (generateExportURL img aoi s) = startYear s
   \<and> points (generateExportURL img aoi s) = points s
   \<and> pointCounter (generateExportURL img aoi s) = pointCounter s"
  by (simp add: generateExportURL_def panel_add_def Let_def split: sum.splits)

lemma runAnalysis_with_aoi:
  assumes "drawing_layers (theMap s) = aoi # rest"
  shows "runAnalysisButton_onClick bk s
           = performNDVIAnalysis bk aoi (startYear s) (points s) (s\<lparr>userAOI := Some aoi\<rparr>)"
  using assms by (simp add: runAnalysisButton_onClick_def Let_def)

lemma calendarRange_single:
  "Filter_calendarRange_month m m = (\<lambda>img. image_month img = Some m)"
  by (intro ext) (auto simp: Filter_calendarRange_month_def split: option.splits)

lemma pixel_at_set:
  "pixel_at (Image_set img k v) n p = pixel_at img n p"
  by (simp add: pixel_at_def Image_set_def)

lemma ImageCollection_map_Inr_D:
  assumes "ImageCollection_map f xs = Inr ys" and "y \<in> set ys"
  shows "\<exists>x \<in> set xs. f x = Inr y"
proof -
  from assms(1) have "map f xs = map Inr ys"
    by (simp add: ImageCollection_map_def collect_Inr_iff)
  then have "set (map f xs) = set (map Inr ys)" by simp
  with assms(2) have "Inr y \<in> set (map f xs)" by simp
  then show ?thesis by auto
qed

lemma filtered_timestamp:
  assumes "x \<in> set (filterBounds bk aoi (filterDate startDate endDate cat))"
  shows "\<exists>t. timestamp_of x = Some t \<and> Date_millis startDate \<le> t \<and> t < Date_millis endDate"
  using assms by (auto simp: filterBounds_def filterDate_def split: option.splits)

lemma advance_year_fromYMD: "Date_advance_year 1 (Date_fromYMD yr 1 1) = Date_fromYMD (yr + 1) 1 1"
  by (simp add: Date_advance_year_def Date_fromYMD_def)

lemma ndviCollection_elems:
  assumes c: "ndviCollection bk aoi yr = Inr c" and r: "r \<in> set c"
  shows "bandNames r = [''ndvi'']
       \<and> (\<exists>t. timestamp_of r = Some t
              \<and> Date_millis (Date_fromYMD yr 1 1) \<le> t
              \<and> t < Date_millis (Date_fromYMD (yr + 1) 1 1))"
proof -
  let ?sd = "Date_fromYMD yr 1 1" and ?ed = "Date_fromYMD (yr + 1) 1 1"
  let ?f = "\<lambda>cat. filterBounds bk aoi (filterDate ?sd ?ed cat)"
  note c' = c [unfolded ndviCollection_def Let_def advance_year_fromYMD]
  from c' obtain l8
    where l8: "ImageCollection_map (processLandsat (nd_zero bk)) (?f (LANDSAT_LC08 bk)) = Inr l8"
    by (rule bind_Inr_E)
  from c' [unfolded l8 sum.case] obtain l9
    where l9: "ImageCollection_map (processLandsat (nd_zero bk)) (?f (LANDSAT_LC09 bk)) = Inr l9"
    by (rule bind_Inr_E)
  from c' [unfolded l8 l9 sum.case] obtain s2
    where s2: "ImageCollection_map (processSentinel (nd_zero bk)) (?f (COPERNICUS_S2 bk)) = Inr s2"
    by (rule bind_Inr_E)
  from c' [unfolded l8 l9 s2 sum.case] have "c = sort_time_start ((l8 @ l9) @ s2)" by simp
  with r have "r \<in> set l8 \<or> r \<in> set l9 \<or> r \<in> set s2"
    by (auto simp: sort_time_start_def)
  then consider (a) "r \<in> set l8" | (b) "r \<in> set l9" | (c) "r \<in> set s2" by blast
  then obtain x where x: "\<exists>t. timestamp_of x = Some t \<and> Date_millis ?sd \<le> t \<and> t < Date_millis ?ed"
    and out: "bandNames r = [''ndvi''] \<and> timestamp_of r = timestamp_of x"
  proof cases
    case a
    from ImageCollection_map_Inr_D [OF l8 a] obtain x
      where "x \<in> set (?f (LANDSAT_LC08 bk))" "processLandsat (nd_zero bk) x = Inr r" by blast
    with filtered_timestamp [of x] processLandsat_schema [of "nd_zero bk" x r] that
    show ?thesis by blast
  next
    case b
    from ImageCollection_map_Inr_D [OF l9 b] obtain x
      where "x \<in> set (?f (LANDSAT_LC09 bk))" "processLandsat (nd_zero bk) x = Inr r" by blast
    with filtered_timestamp [of x] processLandsat_schema [of "nd_zero bk" x r] that
    show ?thesis by blast
  next
    case c
    from ImageCollection_map_Inr_D [OF s2 c] obtain x
      where "x \<in> set (?f (COPERNICUS_S2 bk))" "processSentinel (nd_zero bk) x = Inr r" by blast
    with filtered_timestamp [of x] processSentinel_schema [of "nd_zero bk" x r] that
    show ?thesis by blast
  qed
  then show ?thesis by auto
qed

lemma ndviCollection_ndvi_rasters:
  assumes "ndviCollection bk aoi yr = Inr c"
  shows "ndvi_rasters c"
  unfolding ndvi_rasters_def list_all_iff
  using ndviCollection_elems [OF assms] by blast

lemma composite_bands:
  assumes c: "ndvi_rasters c" and mc: "monthlyComposite s c m = Inr mc"
  shows "bands mc = [(''ndvi'', \<lambda>p. median_list (pixel_values (month_subset c m) ''ndvi'' p))]"
proof -
  have sub: "filter (Filter_calendarRange_month m m) c = month_subset c m"
    by (simp add: calendarRange_single month_subset_def)
  have "ndvi_rasters (month_subset c m)"
    unfolding month_subset_def by (rule ndvi_rasters_filter [OF c])
  from monthlyComposite_bands [OF mc] median_ndvi [OF this] show ?thesis
    unfolding sub by auto
qed

lemma composites_bands:
  assumes c: "ndvi_rasters c" and comps: "computeMonthlyNDVI s c = Inr comps"
  shows "map bands comps
           = map (\<lambda>m. [(''ndvi'', \<lambda>p. median_list (pixel_values (month_subset c m) ''ndvi'' p))])
               [1..12]"
proof (rule nth_equalityI)
  show "length (map bands comps)
          = length (map (\<lambda>m. [(''ndvi'', \<lambda>p. median_list (pixel_values (month_subset c m) ''ndvi'' p))])
               [1..12])"
    using computeMonthlyNDVI_nth(1) [OF comps] by simp
next
  fix i assume "i < length (map bands comps)"
  then have i: "i < 12" using computeMonthlyNDVI_nth(1) [OF comps] by simp
  then have m: "1 \<le> 1 + int i" "1 + int i \<le> 12" by simp_all
  from computeMonthlyNDVI_nth(2) [OF comps m]
  have "monthlyComposite s c (1 + int i) = Inr (comps ! i)" by simp
  from composite_bands [OF c this] i computeMonthlyNDVI_nth(1) [OF comps]
  show "map bands comps ! i
          = map (\<lambda>m. [(''ndvi'', \<lambda>p. median_list (pixel_values (month_subset c m) ''ndvi'' p))])
               [1..12] ! i"
    by simp
qed

lemma concat_singletons: "concat (map (\<lambda>m. [f m]) xs) = map f xs"
  by (induction xs) simp_all

lemma toBands_snd:
  "map snd (bands (toBands c)) = concat (map (\<lambda>img. map snd (bands img)) c)"
  by (simp add: toBands_def map_concat o_def case_prod_unfold)

lemma clip_snd:
  "map snd (bands (Image_clip bk g img))
     = map (\<lambda>b p. if inside bk g p then b p else None) (map snd (bands img))"
  by (simp add: Image_clip_def o_def case_prod_unfold)

lemma clipped_median_fun:
  "clipped_median bk aoi c
     = (\<lambda>m p. if inside bk aoi p then median_list (pixel_values (month_subset c m) ''ndvi'' p) else None)"
  by (intro ext) (simp add: clipped_median_def)

lemma export_bands:
  assumes c: "ndvi_rasters c" and comps: "computeMonthlyNDVI s c = Inr comps"
  shows "map snd (bands (Image_clip bk aoi (toBands comps)))
           = map (clipped_median bk aoi c) [1..12]"
proof -
  let ?g = "\<lambda>m p. median_list (pixel_values (month_subset c m) ''ndvi'' p)"
  have "concat (map (\<lambda>img. map snd (bands img)) comps)
          = concat (map (map snd) (map bands comps))"
    by (simp add: o_def)
  also have "\<dots> = concat (map (\<lambda>m. [?g m]) [1..12])"
    unfolding composites_bands [OF c comps] by (simp add: o_def)
  also have "\<dots> = map ?g [1..12]"
    by (rule concat_singletons)
  finally have "map snd (bands (toBands comps)) = map ?g [1..12]"
    unfolding toBands_snd .
  then show ?thesis
    unfolding clip_snd clipped_median_fun by (simp add: o_def)
qed

lemma monthlyComposite_id:
  assumes "monthlyComposite s c m = Inr mc"
  shows "image_id mc = Date_format_YYYY_MM (Date_fromYMD (startYear s + 1) m 1)"
  using assms
  by (auto simp: monthlyComposite_def Let_def image_id_def Image_get_def Image_set_def update_conv
           split: sum.splits)

lemma composites_ids:
  assumes comps: "computeMonthlyNDVI s c = Inr comps"
  shows "map image_id comps
           = map (\<lambda>m. Date_format_YYYY_MM (Date_fromYMD (startYear s + 1) m 1)) [1..12]"
proof (rule nth_equalityI)
  show "length (map image_id comps)
          = length (map (\<lambda>m. Date_format_YYYY_MM (Date_fromYMD (startYear s + 1) m 1)) [1..12])"
    using computeMonthlyNDVI_nth(1) [OF comps] by simp
next
  fix i assume "i < length (map image_id comps)"
  then have i: "i < 12" using computeMonthlyNDVI_nth(1) [OF comps] by simp
  then have m: "1 \<le> 1 + int i" "1 + int i \<le> 12" by simp_all
  from computeMonthlyNDVI_nth(2) [OF comps m]
  have "monthlyComposite s c (1 + int i) = Inr (comps ! i)" by simp
  from monthlyComposite_id [OF this] i computeMonthlyNDVI_nth(1) [OF comps]
  show "map image_id comps ! i
          = map (\<lambda>m. Date_format_YYYY_MM (Date_fromYMD (startYear s + 1) m 1)) [1..12] ! i"
    by simp
qed

lemma toBands_fst:
  "map fst (bands (toBands c)) = concat (map (\<lambda>img. map (\<lambda>n. image_id img @ ''_'' @ n) (bandNames img)) c)"
  by (simp add: toBands_def map_concat o_def case_prod_unfold bandNames_def)

lemma clip_fst: "map fst (bands (Image_clip bk g img)) = map fst (bands img)"
  by (simp add: Image_clip_def o_def case_prod_unfold)

lemma concat_ids_names:
  assumes "map f xs = map g ys" and "\<forall>x \<in> set xs. h x = [n]"
  shows "concat (map (\<lambda>x. map (\<lambda>k. f x @ ''_'' @ k) (h x)) xs) = map (\<lambda>y. g y @ ''_'' @ n) ys"
  using assms
proof (induction xs arbitrary: ys)
  case Nil
  then show ?case by simp
next
  case (Cons x xs)
  then obtain y ys' where ys: "ys = y # ys'" by (cases ys) auto
  with Cons.prems have "f x = g y" "map f xs = map g ys'" "h x = [n]" "\<forall>x \<in> set xs. h x = [n]"
    by simp_all
  with Cons.IH [of ys'] ys show ?case by simp
qed

lemma export_band_names:
  assumes c: "ndvi_rasters c" and comps: "computeMonthlyNDVI s c = Inr comps"
  shows "map fst (bands (Image_clip bk aoi (toBands comps)))
           = map (\<lambda>m. Date_format_YYYY_MM (Date_fromYMD (startYear s + 1) m 1) @ ''_ndvi'') [1..12]"
proof -
  have names: "\<forall>mc \<in> set comps. bandNames mc = [''ndvi'']"
  proof
    fix mc assume "mc \<in> set comps"
    then obtain i where i: "i < length comps" "comps ! i = mc"
      by (auto simp: in_set_conv_nth)
    with computeMonthlyNDVI_nth(1) [OF comps] have "i < 12" by simp
    then have m: "1 \<le> 1 + int i" "1 + int i \<le> 12" by simp_all
    from computeMonthlyNDVI_nth(2) [OF comps m] i
    have "monthlyComposite s c (1 + int i) = Inr mc" by simp
    from composite_bands [OF c this] show "bandNames mc = [''ndvi'']"
      by (simp add: bandNames_def)
  qed
  from concat_ids_names [where f = image_id and h = bandNames, OF composites_ids [OF comps] names]
  show ?thesis
    unfolding clip_fst toBands_fst by simp
qed

lemma run_download_requests:
  assumes "drawing_layers (theMap s) = aoi # rest"
      and "ndviCollection bk aoi (startYear s) = Inr c"
      and "computeMonthlyNDVI s c = Inr comps"
  shows "downloadRequests (controlPanel (runAnalysisButton_onClick bk s))
           = downloadRequests (controlPanel s)
             @ [\<lparr>dl_image = Image_clip bk aoi (toBands comps), dl_format = ''GeoTIFF'',
                 dl_scale = 30, dl_region = aoi\<rparr>]"
proof -
  have m: "monthlyNDVI bk aoi (startYear s) (s\<lparr>userAOI := Some aoi\<rparr>) = Inr comps"
    using monthlyNDVI_startYear [of "s\<lparr>userAOI := Some aoi\<rparr>" s bk aoi "startYear s"] assms(2,3)
    by (simp add: monthlyNDVI_def)
  show ?thesis
    unfolding runAnalysis_with_aoi [OF assms(1)] performNDVIAnalysis_panel m
    by (simp add: downloadRequests_append export_widgets_def ndviImage_def)
qed

subsection \<open>Comparison points\<close>

lemma decimal_nonempty: "decimal n \<noteq> []"
  by (subst decimal.simps) simp

lemma digit_inj: "a < 10 \<Longrightarrow> b < 10 \<Longrightarrow> digit a = digit b \<Longrightarrow> a = b"
proof -
  assume a: "a < 10" and b: "b < 10" and e: "digit a = digit b"
  from e have "of_char (char_of (48 + a) :: char) = (of_char (char_of (48 + b) :: char) :: nat)"
    by (simp add: digit_def)
  with a b show "a = b" by simp
qed

lemma decimal_inj: "decimal a = decimal b \<Longrightarrow> a = b"
proof (induction a arbitrary: b rule: decimal.induct)
  case (1 n)
  show ?case
  proof (cases "n < 10")
    case small: True
    show ?thesis
    proof (cases "b < 10")
      case True
      with small "1.prems" show ?thesis
        by (simp add: decimal.simps [of n] decimal.simps [of b] digit_inj)
    next
      case False
      with small "1.prems" decimal_nonempty [of "b div 10"] show ?thesis
        by (simp add: decimal.simps [of n] decimal.simps [of b])
    qed
  next
    case big: False
    show ?thesis
    proof (cases "b < 10")
      case True
      with big "1.prems" decimal_nonempty [of "n div 10"] show ?thesis
        by (simp add: decimal.simps [of n] decimal.simps [of b])
    next
      case False
      with big "1.prems" have e: "decimal (n div 10) = decimal (b div 10)" "digit (n mod 10) = digit (b mod 10)"
        by (simp_all add: decimal.simps [of n] decimal.simps [of b])
      from "1.IH" [OF big e(1)] have d: "n div 10 = b div 10" .
      from digit_inj [OF _ _ e(2)] have m: "n mod 10 = b mod 10" by simp
      from d m show ?thesis by (metis div_mult_mod_eq)
    qed
  qed
qed

lemma addPoint_callback_fields:
  "pointCounter (addPoint_callback lon lat s) = pointCounter s + 1"
  "points (addPoint_callback lon lat s) = points s @ [pointFeature lon lat (pointCounter s + 1)]"
  "onClick_listeners (theMap (addPoint_callback lon lat s)) = onClick_listeners (theMap s)"
  by (simp_all add: addPoint_callback_def Let_def ui_alert_def Map_addLayer_def pointFeature_def)

lemma upt_0_Suc: "[0..<Suc n] = 0 # map Suc [0..<n]"
  by (simp add: upt_conv_Cons map_Suc_upt del: upt_Suc)

lemma fold_addPoint:
  "pointCounter (fold (call_listener lon lat) (replicate n AddPointCallback) s) = pointCounter s + n
   \<and> points (fold (call_listener lon lat) (replicate n AddPointCallback) s)
       = points s @ map (\<lambda>i. pointFeature lon lat (pointCounter s + 1 + i)) [0..<n]"
proof (induction n arbitrary: s)
  case 0
  then show ?case by simp
next
  case (Suc n)
  let ?s = "addPoint_callback lon lat s"
  have step: "fold (call_listener lon lat) (replicate (Suc n) AddPointCallback) s
                = fold (call_listener lon lat) (replicate n AddPointCallback) ?s"
    by simp
  have m: "map (\<lambda>i. pointFeature lon lat (pointCounter s + 1 + i)) [0..<Suc n]
             = pointFeature lon lat (pointCounter s + 1)
               # map (\<lambda>i. pointFeature lon lat (pointCounter ?s + 1 + i)) [0..<n]"
    unfolding upt_0_Suc by (simp add: addPoint_callback_fields o_def)
  show ?case
    unfolding step m using Suc [of ?s] by (simp add: addPoint_callback_fields)
qed

lemma addPointButton_presses:
  "onClick_listeners (theMap ((addPointButton_onClick ^^ n) s))
     = onClick_listeners (theMap s) @ replicate n AddPointCallback
   \<and> pointCounter ((addPointButton_onClick ^^ n) s) = pointCounter s
   \<and> points ((addPointButton_onClick ^^ n) s) = points s"
proof (induction n)
  case 0
  then show ?case by simp
next
  case (Suc n)
  then show ?case
    by (simp add: addPointButton_onClick_def ui_alert_def replicate_append_same)
qed

lemma run_presses:
  "run_events bk s (replicate n AddPointsPressed) = (addPointButton_onClick ^^ n) s"
proof (induction n arbitrary: s)
  case 0
  then show ?case by (simp add: run_events_def)
next
  case (Suc n)
  have "run_events bk s (replicate (Suc n) AddPointsPressed)
          = run_events bk (addPointButton_onClick s) (replicate n AddPointsPressed)"
    by (simp add: run_events_def)
  also have "\<dots> = (addPointButton_onClick ^^ n) (addPointButton_onClick s)" by (rule Suc)
  finally show ?case by (simp add: funpow_swap1)
qed

lemma pointNames_distinct:
  "distinct (map (\<lambda>i. ''Point '' @ decimal (c + 1 + i)) [0..<n])"
  by (auto simp: distinct_map inj_on_def dest: decimal_inj)

lemma parseInt10_items:
  "parseInt10 ''2020'' = Some 2020" "parseInt10 ''2021'' = Some 2021" "parseInt10 ''2022'' = Some 2022"
  "parseInt10 ''2023'' = Some 2023" "parseInt10 ''2024'' = Some 2024"
  by code_simp+

lemma yearDropdown_items:
  assumes "v \<in> set yearItems"
  shows "\<exists>y. yearDropdown_onChange v s = Some (s\<lparr>startYear := y\<rparr>) \<and> 2020 \<le> y \<and> y \<le> 2024"
  using assms unfolding yearItems_def yearDropdown_onChange_def
  by (auto simp: parseInt10_items)

lemma performNDVIAnalysis_frame:
  "points (performNDVIAnalysis bk aoi yr pts s) = points s"
  "pointCounter (performNDVIAnalysis bk aoi yr pts s) = pointCounter s"
  "startYear (performNDVIAnalysis bk aoi yr pts s) = startYear s"
  "userAOI (performNDVIAnalysis bk aoi yr pts s) = userAOI s"
  by (simp_all add: performNDVIAnalysis_def Let_def generateExportURL_frame panel_add_def Map_addLayer_def)

lemma runAnalysis_frame:
  "points (runAnalysisButton_onClick bk s) = points s"
  "pointCounter (runAnalysisButton_onClick bk s) = pointCounter s"
  "startYear (runAnalysisButton_onClick bk s) = startYear s"
  by (simp_all add: runAnalysisButton_onClick_def Let_def performNDVIAnalysis_frame ui_alert_def
        split: list.splits)

lemma addPoint_callback_names:
  assumes "names_in_step s"
  shows "names_in_step (addPoint_callback lon lat s)"
  using assms
  by (simp add: names_in_step_def pointNames_def addPoint_callback_fields pointFeature_def)

lemma mapClick_names:
  assumes "names_in_step s"
  shows "names_in_step (fold (call_listener lon lat) ls s)"
  using assms
proof (induction ls arbitrary: s)
  case Nil
  then show ?case by simp
next
  case (Cons l ls)
  have "call_listener lon lat l s = addPoint_callback lon lat s" by (cases l) simp
  with Cons show ?case by (simp add: addPoint_callback_names)
qed

lemma step_names:
  assumes "names_in_step s"
  shows "names_in_step (step bk s e)"
proof (cases e)
  case DrawAOIPressed
  with assms show ?thesis by (simp add: names_in_step_def drawAOIButton_onClick_def ui_alert_def)
next
  case (YearChosen v)
  show ?thesis
  proof (cases "v \<in> set yearItems")
    case True
    from yearDropdown_items [OF True, of s] obtain y
      where "yearDropdown_onChange v s = Some (s\<lparr>startYear := y\<rparr>)" by blast
    with YearChosen True assms show ?thesis by (simp add: names_in_step_def)
  next
    case False
    with YearChosen assms show ?thesis by simp
  qed
next
  case AddPointsPressed
  with assms show ?thesis by (simp add: names_in_step_def addPointButton_onClick_def ui_alert_def)
next
  case RunAnalysisPressed
  with assms show ?thesis by (simp add: names_in_step_def runAnalysis_frame)
next
  case (MapClicked lon lat)
  with assms show ?thesis by (simp add: mapClick_def mapClick_names)
next
  case (LayersEdited ls)
  with assms show ?thesis by (simp add: names_in_step_def)
qed

lemma run_events_names:
  assumes "names_in_step s"
  shows "names_in_step (run_events bk s es)"
  using assms unfolding run_events_def
  by (induction es arbitrary: s) (simp_all add: step_names)

lemma init_names: "names_in_step init"
  by (simp add: names_in_step_def pointNames_def init_def)

lemma decimal_names_distinct:
  "distinct (map (\<lambda>k. Some (PStr (''Point '' @ decimal k))) [a..<b])"
  by (auto simp: distinct_map inj_on_def dest: decimal_inj)

lemma reachable_names_distinct:
  "distinct (pointNames (points (run_events bk init es)))"
proof -
  note eq = run_events_names [OF init_names, of bk es, unfolded names_in_step_def]
  show ?thesis unfolding eq by (rule decimal_names_distinct)
qed

subsection \<open>The sample scenes\<close>

lemma sample_processLandsat: "processLandsat None sample_landsat = Inr sample_landsat_ndvi"
  unfolding sample_landsat_ndvi_def
  by (rule processLandsat_eq) (simp_all add: sample_landsat_def Image_get_def)

lemma sample_processSentinel: "processSentinel None sample_sentinel = Inr sample_sentinel_ndvi"
  unfolding sample_sentinel_ndvi_def
  by (rule processSentinel_eq) (simp_all add: sample_sentinel_def)

lemma year_bounds_2022:
  "Date_millis (Date_fromYMD 2022 1 1) = 1640995200000"
  "Date_millis (Date_advance_year 1 (Date_fromYMD 2022 1 1)) = 1672531200000"
  by (simp_all add: Date_millis_def Date_fromYMD_def Date_advance_year_def days_from_civil_def msPerDay_def)

lemma sample_timestamps:
  "timestamp_of sample_landsat = Some 1641081600000"
  "timestamp_of sample_sentinel = Some 1643673600000"
  by (simp_all add: timestamp_of_def Image_get_def sample_landsat_def sample_sentinel_def)

lemma sample_ndvi_timestamps:
  "timestamp_of sample_landsat_ndvi = Some 1641081600000"
  "timestamp_of sample_sentinel_ndvi = Some 1643673600000"
  using processLandsat_schema [OF sample_processLandsat] processSentinel_schema [OF sample_processSentinel]
  by (simp_all add: sample_timestamps)

lemma sample_ndviCollection:
  "ndviCollection sample_backend (Drawn ()) 2022 = Inr [sample_landsat_ndvi, sample_sentinel_ndvi]"
  by (simp add: ndviCollection_def Let_def sample_backend_def filterBounds_def filterDate_def
      year_bounds_2022 sample_timestamps ImageCollection_map_def sample_processLandsat
      sample_processSentinel sort_time_start_def sample_ndvi_timestamps)

lemma sample_dates:
  "month (date_of_millis 1641081600000) = 1"
  "month (date_of_millis 1643673600000) = 2"
  "month (date_of_millis 1643500800000) = 1"
  "month (date_of_millis 1672617600000) = 1"
  "month (date_of_millis 1646092800000) = 3"
  by code_simp+

lemma sample_image_months:
  "image_month sample_landsat_ndvi = Some 1"
  "image_month sample_sentinel_ndvi = Some 2"
  by (simp_all add: image_month_def sample_ndvi_timestamps sample_dates)

lemma sample_state_fields:
  "drawing_layers (theMap sample_state) = Drawn () # []"
  "startYear sample_state = 2022"
  "controlPanel sample_state = controlPanel (init :: unit app_state)"
  "points sample_state = []"
  by (simp_all add: sample_state_def init_def)

lemma init_panel_charts:
  "seriesCharts (controlPanel (init :: unit app_state)) = []"
  "regionCharts (controlPanel (init :: unit app_state)) = []"
  "downloadRequests (controlPanel (init :: unit app_state)) = []"
  by (simp_all add: init_def)

lemma sample_composites:
  "\<exists>comps. computeMonthlyNDVI sample_state [sample_landsat_ndvi, sample_sentinel_ndvi] = Inr comps
           \<and> length comps = 12"
proof -
  from computeMonthlyNDVI_total [OF ndviCollection_ndvi_rasters [OF sample_ndviCollection]]
  obtain comps
    where c: "computeMonthlyNDVI sample_state [sample_landsat_ndvi, sample_sentinel_ndvi] = Inr comps"
    by blast
  from c computeMonthlyNDVI_nth(1) [OF c] show ?thesis by blast
qed

lemma sample_dark_landsat_fields:
  "Image_get sample_dark_landsat ''REFLECTANCE_MULT_BAND_4'' = Some (PNum (11 / 400000))"
  "Image_get sample_dark_landsat ''REFLECTANCE_ADD_BAND_4'' = Some (PNum (- 1 / 5))"
  "map_of (bands sample_dark_landsat) ''SR_B5'' = Some (\<lambda>p. Some 7000)"
  "map_of (bands sample_dark_landsat) ''SR_B4'' = Some (\<lambda>p. Some 9000)"
  by (simp_all add: sample_dark_landsat_def Image_get_def)

lemma sample_landsat_fields:
  "Image_get sample_landsat ''REFLECTANCE_MULT_BAND_4'' = Some (PNum (11 / 400000))"
  "Image_get sample_landsat ''REFLECTANCE_ADD_BAND_4'' = Some (PNum (- 1 / 5))"
  "map_of (bands sample_landsat) ''SR_B5'' = Some (\<lambda>p. Some 20000)"
  "map_of (bands sample_landsat) ''SR_B4'' = Some (\<lambda>p. Some 9000)"
  by (simp_all add: sample_landsat_def Image_get_def)

lemma sample_sentinel_fields:
  "map_of (bands sample_sentinel) ''B8'' = Some (\<lambda>p. Some 5000)"
  "map_of (bands sample_sentinel) ''B4'' = Some (\<lambda>p. Some 1000)"
  by (simp_all add: sample_sentinel_def)

lemma sample_zero_sentinel_fields:
  "map_of (bands sample_zero_sentinel) ''B8'' = Some (\<lambda>p. Some 0)"
  "map_of (bands sample_zero_sentinel) ''B4'' = Some (\<lambda>p. Some 0)"
  by (simp_all add: sample_zero_sentinel_def)

lemma window_samples:
  "matches_SR_B_2_to_5 ''SR_B5''" "matches_SR_B_2_to_5 ''SR_B4''" "\<not> matches_SR_B_2_to_5 ''SR_B1''"
  "matches_B_any ''B8''" "matches_B_any ''B4''" "\<not> matches_B_any ''SCL''"
  by (simp_all add: matches_SR_B_2_to_5_def matches_B_any_def)

lemma sample_ndvi_pixels:
  "pixel_at sample_landsat_ndvi ''ndvi'' p = Inr (Some (121 / 159))"
  "pixel_at sample_sentinel_ndvi ''ndvi'' p = Inr (Some (2 / 3))"
  by (simp_all add: sample_landsat_ndvi_def sample_sentinel_ndvi_def pixel_at_ndvi_output ndviBand_def
      calibrate_def nd_pixel_def)

lemma sample_month_subsets:
  "month_subset [sample_landsat_ndvi, sample_sentinel_ndvi] m
     = (if m = 1 then [sample_landsat_ndvi] else if m = 2 then [sample_sentinel_ndvi] else [])"
  by (simp add: month_subset_def sample_image_months)

lemma sample_clipped_medians:
  "clipped_median sample_backend (Drawn ()) [sample_landsat_ndvi, sample_sentinel_ndvi] m p
     = (if m = 1 then Some (121 / 159) else if m = 2 then Some (2 / 3) else None)"
  by (simp add: clipped_median_def sample_backend_def sample_month_subsets pixel_values_def
      map_filter_simps sample_ndvi_pixels median_list_def)

lemma sample_band_ids:
  "Date_format_YYYY_MM (Date_fromYMD 2023 1 1) = ''2023-01''"
  "Date_format_YYYY_MM (Date_fromYMD 2023 2 1) = ''2023-02''"
  "Date_format_YYYY_MM (Date_fromYMD 2023 3 1) = ''2023-03''"
  "Date_format_YYYY_MM (Date_fromYMD 2023 4 1) = ''2023-04''"
  "Date_format_YYYY_MM (Date_fromYMD 2023 5 1) = ''2023-05''"
  "Date_format_YYYY_MM (Date_fromYMD 2023 6 1) = ''2023-06''"
  "Date_format_YYYY_MM (Date_fromYMD 2023 7 1) = ''2023-07''"
  "Date_format_YYYY_MM (Date_fromYMD 2023 8 1) = ''2023-08''"
  "Date_format_YYYY_MM (Date_fromYMD 2023 9 1) = ''2023-09''"
  "Date_format_YYYY_MM (Date_fromYMD 2023 10 1) = ''2023-10''"
  "Date_format_YYYY_MM (Date_fromYMD 2023 11 1) = ''2023-11''"
  "Date_format_YYYY_MM (Date_fromYMD 2023 12 1) = ''2023-12''"
  by code_simp+

section \<open>The claims\<close>

text \<open>
  Claim C1. In a run with selected year \<open>Y\<close> (the global \<open>startYear\<close> when
  Run Analysis is pressed with an area drawn), the chart over time is built from the
  composites of \<open>computeMonthlyNDVI\<close>, and the composite of month \<open>m\<close> carries as
  \<open>system:time_start\<close> the instant of \<open>ee.Date.fromYMD(Y + 1, m, 1)\<close>: its calendar
  fields are year \<open>Y + 1\<close>, month \<open>m\<close>, day 1.
\<close>

theorem run_composite_timestamps:
  assumes "drawing_layers (theMap s) = aoi # rest"
  shows "seriesCharts (controlPanel (runAnalysisButton_onClick bk s))
           = seriesCharts (controlPanel s) @ [aoiChart (monthlyNDVI bk aoi (startYear s) s) aoi]
         \<and> (\<forall>comps m. monthlyNDVI bk aoi (startYear s) s = Inr comps \<and> 1 \<le> m \<and> m \<le> 12 \<longrightarrow>
               timestamp_of (comps ! nat (m - 1)) = Some (Date_millis (Date_fromYMD (startYear s + 1) m 1))
               \<and> date_of_millis (Date_millis (Date_fromYMD (startYear s + 1) m 1))
                   = \<lparr>year = startYear s + 1, month = m, day = 1\<rparr>)"
proof (intro conjI allI impI)
  have m: "monthlyNDVI bk aoi (startYear s) (s\<lparr>userAOI := Some aoi\<rparr>) = monthlyNDVI bk aoi (startYear s) s"
    by (rule monthlyNDVI_startYear) simp
  show "seriesCharts (controlPanel (runAnalysisButton_onClick bk s))
           = seriesCharts (controlPanel s) @ [aoiChart (monthlyNDVI bk aoi (startYear s) s) aoi]"
    unfolding runAnalysis_with_aoi [OF assms] performNDVIAnalysis_panel m
    by (simp add: seriesCharts_append export_widgets_def split: sum.splits)
next
  fix comps :: "image list" and m :: int
  assume a: "monthlyNDVI bk aoi (startYear s) s = Inr comps \<and> 1 \<le> m \<and> m \<le> 12"
  then obtain c where "computeMonthlyNDVI s c = Inr comps"
    by (auto simp: monthlyNDVI_def split: sum.splits)
  from computeMonthlyNDVI_nth(2) [OF this] a
  have "monthlyComposite s c m = Inr (comps ! nat (m - 1))" by simp
  from monthlyComposite_timestamp [OF this]
  show "timestamp_of (comps ! nat (m - 1)) = Some (Date_millis (Date_fromYMD (startYear s + 1) m 1))" .
next
  fix comps :: "image list" and m :: int
  assume a: "monthlyNDVI bk aoi (startYear s) s = Inr comps \<and> 1 \<le> m \<and> m \<le> 12"
  then show "date_of_millis (Date_millis (Date_fromYMD (startYear s + 1) m 1))
                   = \<lparr>year = startYear s + 1, month = m, day = 1\<rparr>"
    by (simp add: date_of_millis_fromYMD)
qed

theorem run_composite_timestamps_witness:
  "drawing_layers (theMap sample_state) = [Drawn ()]
   \<and> startYear sample_state = 2022
   \<and> seriesCharts (controlPanel (runAnalysisButton_onClick sample_backend sample_state))
       = [aoiChart (monthlyNDVI sample_backend (Drawn ()) 2022 sample_state) (Drawn ())]
   \<and> (\<exists>comps. monthlyNDVI sample_backend (Drawn ()) 2022 sample_state = Inr comps
         \<and> timestamp_of (comps ! 0) = Some 1672531200000
         \<and> timestamp_of (comps ! 11) = Some 1701388800000)
   \<and> date_of_millis 1672531200000 = \<lparr>year = 2023, month = 1, day = 1\<rparr>
   \<and> date_of_millis 1701388800000 = \<lparr>year = 2023, month = 12, day = 1\<rparr>"
proof -
  have h: "drawing_layers (theMap sample_state) = Drawn () # []"
    by (simp add: sample_state_def init_def)
  have y: "startYear sample_state = 2022"
    by (simp add: sample_state_def init_def)
  have p: "seriesCharts (controlPanel sample_state) = []"
    by (simp add: sample_state_def init_def)
  have m1: "Date_millis (Date_fromYMD 2023 1 1) = 1672531200000"
    and m12: "Date_millis (Date_fromYMD 2023 12 1) = 1701388800000"
    by (simp_all add: Date_millis_def Date_fromYMD_def days_from_civil_def msPerDay_def)
  from computeMonthlyNDVI_total [OF ndviCollection_ndvi_rasters [OF sample_ndviCollection]]
  obtain comps where "computeMonthlyNDVI sample_state [sample_landsat_ndvi, sample_sentinel_ndvi] = Inr comps"
    by blast
  then have c: "monthlyNDVI sample_backend (Drawn ()) 2022 sample_state = Inr comps"
    by (simp add: monthlyNDVI_def sample_ndviCollection)
  note T = run_composite_timestamps [OF h, of sample_backend, unfolded y]
  from T have A: "seriesCharts (controlPanel (runAnalysisButton_onClick sample_backend sample_state))
       = [aoiChart (monthlyNDVI sample_backend (Drawn ()) 2022 sample_state) (Drawn ())]"
    by (simp add: p)
  from T [THEN conjunct2, rule_format, of comps 1] c
  have B1: "timestamp_of (comps ! 0) = Some 1672531200000"
    and D1: "date_of_millis 1672531200000 = \<lparr>year = 2023, month = 1, day = 1\<rparr>"
    by (simp_all add: m1)
  from T [THEN conjunct2, rule_format, of comps 12] c
  have B12: "timestamp_of (comps ! 11) = Some 1701388800000"
    and D12: "date_of_millis 1701388800000 = \<lparr>year = 2023, month = 12, day = 1\<rparr>"
    by (simp_all add: m12)
  from h y A c B1 B12 D1 D12 show ?thesis by blast
qed

text \<open>
  Claim C2. For every collection of NDVI rasters and every selected year, the aggregator
  returns twelve composites; the months of their timestamps are 1, 2, ..., 12 in this
  order, so each month occurs once; and a collection with the same images in another
  order gives the same composites.
\<close>

theorem computeMonthlyNDVI_twelve_months:
  assumes "ndvi_rasters c"
  shows "\<exists>comps. computeMonthlyNDVI s c = Inr comps
           \<and> length comps = 12
           \<and> map image_month comps = map Some [1, 2, 3, 4, 5, 6, 7, 8, 9, 10, 11, 12]
           \<and> (\<forall>c'. mset c' = mset c \<longrightarrow> computeMonthlyNDVI s c' = Inr comps)"
proof -
  from computeMonthlyNDVI_total [OF assms] obtain comps
    where comps: "computeMonthlyNDVI s c = Inr comps" by blast
  have perm: "\<forall>c'. mset c' = mset c \<longrightarrow> computeMonthlyNDVI s c' = Inr comps"
    using computeMonthlyNDVI_perm [of _ c s] comps by simp
  have months: "map image_month comps = map Some [1, 2, 3, 4, 5, 6, 7, 8, 9, 10, 11, 12]"
    using computeMonthlyNDVI_months [OF comps] unfolding months_1_12 .
  from comps computeMonthlyNDVI_nth(1) [OF comps] months perm show ?thesis by blast
qed

theorem computeMonthlyNDVI_twelve_months_witness:
  "ndvi_rasters [sample_ndvi 1643673600000 (1 / 2), sample_ndvi 1641081600000 (1 / 4)]
   \<and> (\<exists>comps. computeMonthlyNDVI (init :: unit app_state)
                  [sample_ndvi 1643673600000 (1 / 2), sample_ndvi 1641081600000 (1 / 4)] = Inr comps
         \<and> length comps = 12
         \<and> map image_month comps = map Some [1, 2, 3, 4, 5, 6, 7, 8, 9, 10, 11, 12]
         \<and> computeMonthlyNDVI (init :: unit app_state)
                  [sample_ndvi 1641081600000 (1 / 4), sample_ndvi 1643673600000 (1 / 2)] = Inr comps)"
proof -
  let ?a = "sample_ndvi 1643673600000 (1 / 2)" and ?b = "sample_ndvi 1641081600000 (1 / 4)"
  have h: "ndvi_rasters [?a, ?b]"
    by (simp add: ndvi_rasters_def sample_ndvi_def bandNames_def)
  have p: "mset [?b, ?a] = mset [?a, ?b]" by simp
  from computeMonthlyNDVI_twelve_months [OF h, of "init :: unit app_state"] p h
  show ?thesis by blast
qed

text \<open>
  Claim C3, as the code has it. For a Landsat image that carries the gain and the offset
  of band 4 (red) in its properties and has the bands \<open>SR_B5\<close> and \<open>SR_B4\<close>,
  \<open>processLandsat\<close> keeps the bands \<open>SR_B2\<close> to \<open>SR_B5\<close> and applies
  \<open>raw * gain + offset\<close> to each of them; for a Sentinel-2 image that has \<open>B8\<close> and
  \<open>B4\<close>, \<open>processSentinel\<close> keeps the bands whose name starts with \<open>B\<close> and
  multiplies each by 1/10000. The \<open>ndvi\<close> band is the platform's normalized difference
  of the calibrated near-infrared and red bands: where both calibrated values are
  non-negative and their sum is not zero, the pixel is \<open>(NIR - RED) / (NIR + RED)\<close>;
  where a calibrated value is negative, the pixel is masked. So the ratio is not computed
  for every image: the Landsat scene \<open>sample_dark_landsat\<close> below has a pixel with
  calibrated values \<open>-3/400\<close> and \<open>19/400\<close>, where the ratio is \<open>-11/8\<close> and the
  transform gives a masked pixel.
\<close>

theorem ndvi_transform_formula:
  assumes "Image_get imgL ''REFLECTANCE_MULT_BAND_4'' = Some (PNum gain)"
      and "Image_get imgL ''REFLECTANCE_ADD_BAND_4'' = Some (PNum offset)"
      and "map_of (bands imgL) ''SR_B5'' = Some nirL"
      and "map_of (bands imgL) ''SR_B4'' = Some redL"
      and "map_of (bands imgS) ''B8'' = Some nirS"
      and "map_of (bands imgS) ''B4'' = Some redS"
  shows "landsatReflectance imgL = Inr (calibrated gain offset matches_SR_B_2_to_5 imgL)
         \<and> sentinelReflectance imgS = Inr (calibrated (1 / 10000) 0 matches_B_any imgS)
         \<and> (\<forall>p. result_pixel (processLandsat zero imgL) ''ndvi'' p
                 = Inr (nd_pixel zero (calibrate gain offset (nirL p)) (calibrate gain offset (redL p))))
         \<and> (\<forall>p. result_pixel (processSentinel zero imgS) ''ndvi'' p
                 = Inr (nd_pixel zero (calibrate (1 / 10000) 0 (nirS p))
                                      (calibrate (1 / 10000) 0 (redS p))))
         \<and> (\<forall>p n r. nirL p = Some n \<and> redL p = Some r
                  \<and> 0 \<le> n * gain + offset \<and> 0 \<le> r * gain + offset
                  \<and> (n * gain + offset) + (r * gain + offset) \<noteq> 0
                \<longrightarrow> result_pixel (processLandsat zero imgL) ''ndvi'' p
                      = Inr (Some (((n * gain + offset) - (r * gain + offset))
                                    / ((n * gain + offset) + (r * gain + offset)))))
         \<and> (\<forall>p n r. nirS p = Some n \<and> redS p = Some r
                  \<and> 0 \<le> n * (1 / 10000) \<and> 0 \<le> r * (1 / 10000)
                  \<and> n * (1 / 10000) + r * (1 / 10000) \<noteq> 0
                \<longrightarrow> result_pixel (processSentinel zero imgS) ''ndvi'' p
                      = Inr (Some ((n * (1 / 10000) - r * (1 / 10000))
                                    / (n * (1 / 10000) + r * (1 / 10000)))))
         \<and> (\<forall>p n r. nirL p = Some n \<and> redL p = Some r
                  \<and> (n * gain + offset < 0 \<or> r * gain + offset < 0)
                \<longrightarrow> result_pixel (processLandsat zero imgL) ''ndvi'' p = Inr None)
         \<and> (\<forall>p n r. nirS p = Some n \<and> redS p = Some r
                  \<and> (n * (1 / 10000) < 0 \<or> r * (1 / 10000) < 0)
                \<longrightarrow> result_pixel (processSentinel zero imgS) ''ndvi'' p = Inr None)"
proof -
  have m: "matches_SR_B_2_to_5 ''SR_B5''" "matches_B_any ''B8''"
    by (simp_all add: matches_SR_B_2_to_5_def matches_B_any_def)
  have rL: "landsatReflectance imgL = Inr (calibrated gain offset matches_SR_B_2_to_5 imgL)"
    by (rule landsatReflectance_eq [OF assms(1,2,3) m(1)])
  have rS: "sentinelReflectance imgS = Inr (calibrated (1 / 10000) 0 matches_B_any imgS)"
    by (rule sentinelReflectance_eq [OF assms(5) m(2)])
  note pL = result_pixel_processLandsat [OF assms(1-4), of zero]
  note pS = result_pixel_processSentinel [OF assms(5,6), of zero]
  have fL: "\<forall>p n r. nirL p = Some n \<and> redL p = Some r
                  \<and> 0 \<le> n * gain + offset \<and> 0 \<le> r * gain + offset
                  \<and> (n * gain + offset) + (r * gain + offset) \<noteq> 0
                \<longrightarrow> result_pixel (processLandsat zero imgL) ''ndvi'' p
                      = Inr (Some (((n * gain + offset) - (r * gain + offset))
                                    / ((n * gain + offset) + (r * gain + offset))))"
    unfolding pL by (auto simp: calibrate_def nd_pixel_def)
  have fS: "\<forall>p n r. nirS p = Some n \<and> redS p = Some r
                  \<and> 0 \<le> n * (1 / 10000) \<and> 0 \<le> r * (1 / 10000)
                  \<and> n * (1 / 10000) + r * (1 / 10000) \<noteq> 0
                \<longrightarrow> result_pixel (processSentinel zero imgS) ''ndvi'' p
                      = Inr (Some ((n * (1 / 10000) - r * (1 / 10000))
                                    / (n * (1 / 10000) + r * (1 / 10000))))"
    unfolding pS by (auto simp: calibrate_def nd_pixel_def)
  have nL: "\<forall>p n r. nirL p = Some n \<and> redL p = Some r
                  \<and> (n * gain + offset < 0 \<or> r * gain + offset < 0)
                \<longrightarrow> result_pixel (processLandsat zero imgL) ''ndvi'' p = Inr None"
    unfolding pL by (auto simp: calibrate_def nd_pixel_def)
  have nS: "\<forall>p n r. nirS p = Some n \<and> redS p = Some r
                  \<and> (n * (1 / 10000) < 0 \<or> r * (1 / 10000) < 0)
                \<longrightarrow> result_pixel (processSentinel zero imgS) ''ndvi'' p = Inr None"
    unfolding pS by (auto simp: calibrate_def nd_pixel_def)
  from rL rS pL pS fL fS nL nS show ?thesis by blast
qed

theorem ndvi_dark_pixel_counterexample:
  "result_pixel (landsatReflectance sample_dark_landsat) ''SR_B5'' (0, 0) = Inr (Some (- 3 / 400))
   \<and> result_pixel (landsatReflectance sample_dark_landsat) ''SR_B4'' (0, 0) = Inr (Some (19 / 400))
   \<and> ndvi_formula (- 3 / 400) (19 / 400) = - 11 / 8
   \<and> result_pixel (processLandsat None sample_dark_landsat) ''ndvi'' (0, 0) = Inr None
   \<and> result_pixel (processLandsat (Some 0) sample_dark_landsat) ''ndvi'' (0, 0) = Inr None"
proof -
  have r: "landsatReflectance sample_dark_landsat
             = Inr (calibrated (11 / 400000) (- 1 / 5) matches_SR_B_2_to_5 sample_dark_landsat)"
    by (rule landsatReflectance_eq [OF sample_dark_landsat_fields(1,2,3) window_samples(1)])
  have n: "result_pixel (landsatReflectance sample_dark_landsat) ''SR_B5'' (0, 0) = Inr (Some (- 3 / 400))"
    unfolding r result_pixel_calibrated [where P = matches_SR_B_2_to_5, OF sample_dark_landsat_fields(3) window_samples(1)]
    by (simp add: calibrate_def)
  have d: "result_pixel (landsatReflectance sample_dark_landsat) ''SR_B4'' (0, 0) = Inr (Some (19 / 400))"
    unfolding r result_pixel_calibrated [where P = matches_SR_B_2_to_5, OF sample_dark_landsat_fields(4) window_samples(2)]
    by (simp add: calibrate_def)
  have f: "ndvi_formula (- 3 / 400) (19 / 400) = - 11 / 8"
    by (simp add: ndvi_formula_def)
  have p: "result_pixel (processLandsat zero sample_dark_landsat) ''ndvi'' (0, 0) = Inr None" for zero
    unfolding result_pixel_processLandsat [OF sample_dark_landsat_fields]
    by (simp add: calibrate_def nd_pixel_def)
  from n d f p [of None] p [of "Some 0"] show ?thesis by blast
qed

theorem ndvi_transform_formula_witness:
  "Image_get sample_landsat ''REFLECTANCE_MULT_BAND_4'' = Some (PNum (11 / 400000))
   \<and> Image_get sample_landsat ''REFLECTANCE_ADD_BAND_4'' = Some (PNum (- 1 / 5))
   \<and> map_of (bands sample_landsat) ''SR_B5'' = Some (\<lambda>p. Some 20000)
   \<and> map_of (bands sample_landsat) ''SR_B4'' = Some (\<lambda>p. Some 9000)
   \<and> map_of (bands sample_sentinel) ''B8'' = Some (\<lambda>p. Some 5000)
   \<and> map_of (bands sample_sentinel) ''B4'' = Some (\<lambda>p. Some 1000)
   \<and> result_pixel (landsatReflectance sample_landsat) ''SR_B5'' (0, 0) = Inr (Some (7 / 20))
   \<and> result_pixel (landsatReflectance sample_landsat) ''SR_B4'' (0, 0) = Inr (Some (19 / 400))
   \<and> result_pixel (landsatReflectance sample_landsat) ''SR_B1'' (0, 0) = Inl (MissingBand ''SR_B1'')
   \<and> result_pixel (sentinelReflectance sample_sentinel) ''B8'' (0, 0) = Inr (Some (1 / 2))
   \<and> result_pixel (sentinelReflectance sample_sentinel) ''B4'' (0, 0) = Inr (Some (1 / 10))
   \<and> result_pixel (sentinelReflectance sample_sentinel) ''SCL'' (0, 0) = Inl (MissingBand ''SCL'')
   \<and> result_pixel (processLandsat None sample_landsat) ''ndvi'' (0, 0) = Inr (Some (121 / 159))
   \<and> result_pixel (processSentinel None sample_sentinel) ''ndvi'' (0, 0) = Inr (Some (2 / 3))
   \<and> map_of (bands sample_dark_landsat) ''SR_B5'' = Some (\<lambda>p. Some 7000)
   \<and> result_pixel (processLandsat None sample_dark_landsat) ''ndvi'' (0, 0) = Inr None"
proof -
  note L = sample_landsat_fields and S = sample_sentinel_fields and D = sample_dark_landsat_fields
  note t = ndvi_transform_formula [OF L S, of None]
  from t have rL: "landsatReflectance sample_landsat
                     = Inr (calibrated (11 / 400000) (- 1 / 5) matches_SR_B_2_to_5 sample_landsat)"
    by (elim conjE) assumption
  from t have rS: "sentinelReflectance sample_sentinel
                     = Inr (calibrated (1 / 10000) 0 matches_B_any sample_sentinel)"
    by (elim conjE) assumption
  from t have fL: "\<forall>p (n :: rat) (r :: rat). Some 20000 = Some n \<and> Some 9000 = Some r
                  \<and> 0 \<le> n * (11 / 400000) + (- 1 / 5) \<and> 0 \<le> r * (11 / 400000) + (- 1 / 5)
                  \<and> (n * (11 / 400000) + (- 1 / 5)) + (r * (11 / 400000) + (- 1 / 5)) \<noteq> 0
                \<longrightarrow> result_pixel (processLandsat None sample_landsat) ''ndvi'' p
                      = Inr (Some (((n * (11 / 400000) + (- 1 / 5)) - (r * (11 / 400000) + (- 1 / 5)))
                               / ((n * (11 / 400000) + (- 1 / 5)) + (r * (11 / 400000) + (- 1 / 5)))))"
    by (elim conjE) assumption
  from t have fS: "\<forall>p (n :: rat) (r :: rat). Some 5000 = Some n \<and> Some 1000 = Some r
                  \<and> 0 \<le> n * (1 / 10000) \<and> 0 \<le> r * (1 / 10000)
                  \<and> n * (1 / 10000) + r * (1 / 10000) \<noteq> 0
                \<longrightarrow> result_pixel (processSentinel None sample_sentinel) ''ndvi'' p
                      = Inr (Some ((n * (1 / 10000) - r * (1 / 10000))
                                    / (n * (1 / 10000) + r * (1 / 10000))))"
    by (elim conjE) assumption
  from ndvi_transform_formula [OF D S, of None]
  have nD: "\<forall>p (n :: rat) (r :: rat). Some 7000 = Some n \<and> Some 9000 = Some r
                  \<and> (n * (11 / 400000) + (- 1 / 5) < 0 \<or> r * (11 / 400000) + (- 1 / 5) < 0)
                \<longrightarrow> result_pixel (processLandsat None sample_dark_landsat) ''ndvi'' p = Inr None"
    by (elim conjE) assumption
  have v1: "result_pixel (landsatReflectance sample_landsat) ''SR_B5'' (0, 0) = Inr (Some (7 / 20))"
    unfolding rL result_pixel_calibrated [where P = matches_SR_B_2_to_5, OF L(3) window_samples(1)] by (simp add: calibrate_def)
  have v2: "result_pixel (landsatReflectance sample_landsat) ''SR_B4'' (0, 0) = Inr (Some (19 / 400))"
    unfolding rL result_pixel_calibrated [where P = matches_SR_B_2_to_5, OF L(4) window_samples(2)] by (simp add: calibrate_def)
  have v3: "result_pixel (landsatReflectance sample_landsat) ''SR_B1'' (0, 0) = Inl (MissingBand ''SR_B1'')"
    unfolding rL by (rule result_pixel_calibrated_absent [where P = matches_SR_B_2_to_5, OF window_samples(3)])
  have v4: "result_pixel (sentinelReflectance sample_sentinel) ''B8'' (0, 0) = Inr (Some (1 / 2))"
    unfolding rS result_pixel_calibrated [where P = matches_B_any, OF S(1) window_samples(4)] by (simp add: calibrate_def)
  have v5: "result_pixel (sentinelReflectance sample_sentinel) ''B4'' (0, 0) = Inr (Some (1 / 10))"
    unfolding rS result_pixel_calibrated [where P = matches_B_any, OF S(2) window_samples(5)] by (simp add: calibrate_def)
  have v6: "result_pixel (sentinelReflectance sample_sentinel) ''SCL'' (0, 0) = Inl (MissingBand ''SCL'')"
    unfolding rS by (rule result_pixel_calibrated_absent [where P = matches_B_any, OF window_samples(6)])
  from fL [rule_format, of 20000 9000 "(0, 0)"]
  have vL: "result_pixel (processLandsat None sample_landsat) ''ndvi'' (0, 0) = Inr (Some (121 / 159))"
    by simp
  from fS [rule_format, of 5000 1000 "(0, 0)"]
  have vS: "result_pixel (processSentinel None sample_sentinel) ''ndvi'' (0, 0) = Inr (Some (2 / 3))"
    by simp
  from nD [rule_format, of 7000 9000 "(0, 0)"]
  have vD: "result_pixel (processLandsat None sample_dark_landsat) ''ndvi'' (0, 0) = Inr None"
    by simp
  from L S D(3) v1 v2 v3 v4 v5 v6 vL vS vD show ?thesis by blast
qed

text \<open>
  Claim C4. For an image that has the properties and the bands that its transform
  reads, the transform does not fail. At a pixel whose calibrated near-infrared and red
  values are non-negative with a positive sum, the \<open>ndvi\<close> value is unmasked and lies
  between -1 and 1. At a pixel where the two are non-negative with sum zero, the value
  is the one that the platform's normalized difference gives there; on the platform that
  the specification describes (\<open>nd_zero_masked\<close>) the pixel is masked, and then every
  unmasked \<open>ndvi\<close> value lies between -1 and 1.
\<close>

theorem ndvi_range_and_zero_sum:
  assumes "Image_get imgL ''REFLECTANCE_MULT_BAND_4'' = Some (PNum gain)"
      and "Image_get imgL ''REFLECTANCE_ADD_BAND_4'' = Some (PNum offset)"
      and "map_of (bands imgL) ''SR_B5'' = Some nirL"
      and "map_of (bands imgL) ''SR_B4'' = Some redL"
      and "map_of (bands imgS) ''B8'' = Some nirS"
      and "map_of (bands imgS) ''B4'' = Some redS"
  shows "(\<exists>outL. processLandsat zero imgL = Inr outL)
         \<and> (\<exists>outS. processSentinel zero imgS = Inr outS)
         \<and> (\<forall>p n r. nirL p = Some n \<and> redL p = Some r
                  \<and> 0 \<le> n * gain + offset \<and> 0 \<le> r * gain + offset
                  \<and> 0 < (n * gain + offset) + (r * gain + offset)
                \<longrightarrow> (\<exists>v. result_pixel (processLandsat zero imgL) ''ndvi'' p = Inr (Some v)
                          \<and> - 1 \<le> v \<and> v \<le> 1))
         \<and> (\<forall>p n r. nirS p = Some n \<and> redS p = Some r
                  \<and> 0 \<le> n * (1 / 10000) \<and> 0 \<le> r * (1 / 10000)
                  \<and> 0 < n * (1 / 10000) + r * (1 / 10000)
                \<longrightarrow> (\<exists>v. result_pixel (processSentinel zero imgS) ''ndvi'' p = Inr (Some v)
                          \<and> - 1 \<le> v \<and> v \<le> 1))
         \<and> (\<forall>p n r. nirL p = Some n \<and> redL p = Some r
                  \<and> 0 \<le> n * gain + offset \<and> 0 \<le> r * gain + offset
                  \<and> (n * gain + offset) + (r * gain + offset) = 0
                \<longrightarrow> result_pixel (processLandsat zero imgL) ''ndvi'' p = Inr zero
                    \<and> result_pixel (processLandsat nd_zero_masked imgL) ''ndvi'' p = Inr None)
         \<and> (\<forall>p n r. nirS p = Some n \<and> redS p = Some r
                  \<and> 0 \<le> n * (1 / 10000) \<and> 0 \<le> r * (1 / 10000)
                  \<and> n * (1 / 10000) + r * (1 / 10000) = 0
                \<longrightarrow> result_pixel (processSentinel zero imgS) ''ndvi'' p = Inr zero
                    \<and> result_pixel (processSentinel nd_zero_masked imgS) ''ndvi'' p = Inr None)
         \<and> (\<forall>p v. result_pixel (processLandsat nd_zero_masked imgL) ''ndvi'' p = Inr (Some v)
                \<longrightarrow> - 1 \<le> v \<and> v \<le> 1)
         \<and> (\<forall>p v. result_pixel (processSentinel nd_zero_masked imgS) ''ndvi'' p = Inr (Some v)
                \<longrightarrow> - 1 \<le> v \<and> v \<le> 1)"
proof -
  have oL: "\<exists>outL. processLandsat zero imgL = Inr outL"
    unfolding processLandsat_eq [OF assms(1-4)] by blast
  have oS: "\<exists>outS. processSentinel zero imgS = Inr outS"
    unfolding processSentinel_eq [OF assms(5,6)] by blast
  note pL = result_pixel_processLandsat [OF assms(1-4)]
  note pS = result_pixel_processSentinel [OF assms(5,6)]
  have range: "\<exists>v. nd_pixel z (Some x) (Some y) = Some v \<and> - 1 \<le> v \<and> v \<le> 1"
    if "0 \<le> x" "0 \<le> y" "0 < x + y" for z and x y :: rat
  proof -
    from that have "x + y \<noteq> 0" by simp
    from nd_pixel_formula [OF that(1,2) this] ndvi_formula_range [OF that] show ?thesis by blast
  qed
  have fL: "\<forall>p n r. nirL p = Some n \<and> redL p = Some r
                  \<and> 0 \<le> n * gain + offset \<and> 0 \<le> r * gain + offset
                  \<and> 0 < (n * gain + offset) + (r * gain + offset)
                \<longrightarrow> (\<exists>v. result_pixel (processLandsat zero imgL) ''ndvi'' p = Inr (Some v)
                          \<and> - 1 \<le> v \<and> v \<le> 1)"
    unfolding pL using range by (auto simp: calibrate_def)
  have fS: "\<forall>p n r. nirS p = Some n \<and> redS p = Some r
                  \<and> 0 \<le> n * (1 / 10000) \<and> 0 \<le> r * (1 / 10000)
                  \<and> 0 < n * (1 / 10000) + r * (1 / 10000)
                \<longrightarrow> (\<exists>v. result_pixel (processSentinel zero imgS) ''ndvi'' p = Inr (Some v)
                          \<and> - 1 \<le> v \<and> v \<le> 1)"
    unfolding pS using range by (auto simp: calibrate_def)
  have zL: "\<forall>p n r. nirL p = Some n \<and> redL p = Some r
                  \<and> 0 \<le> n * gain + offset \<and> 0 \<le> r * gain + offset
                  \<and> (n * gain + offset) + (r * gain + offset) = 0
                \<longrightarrow> result_pixel (processLandsat zero imgL) ''ndvi'' p = Inr zero
                    \<and> result_pixel (processLandsat nd_zero_masked imgL) ''ndvi'' p = Inr None"
    unfolding pL by (auto simp: calibrate_def nd_pixel_zero_sum nd_zero_masked_def)
  have zS: "\<forall>p n r. nirS p = Some n \<and> redS p = Some r
                  \<and> 0 \<le> n * (1 / 10000) \<and> 0 \<le> r * (1 / 10000)
                  \<and> n * (1 / 10000) + r * (1 / 10000) = 0
                \<longrightarrow> result_pixel (processSentinel zero imgS) ''ndvi'' p = Inr zero
                    \<and> result_pixel (processSentinel nd_zero_masked imgS) ''ndvi'' p = Inr None"
    unfolding pS by (auto simp: calibrate_def nd_pixel_zero_sum nd_zero_masked_def)
  have aL: "\<forall>p v. result_pixel (processLandsat nd_zero_masked imgL) ''ndvi'' p = Inr (Some v)
                \<longrightarrow> - 1 \<le> v \<and> v \<le> 1"
    unfolding pL nd_zero_masked_def using nd_pixel_masked_range by auto
  have aS: "\<forall>p v. result_pixel (processSentinel nd_zero_masked imgS) ''ndvi'' p = Inr (Some v)
                \<longrightarrow> - 1 \<le> v \<and> v \<le> 1"
    unfolding pS nd_zero_masked_def using nd_pixel_masked_range by auto
  from oL oS fL fS zL zS aL aS show ?thesis by blast
qed

theorem ndvi_range_and_zero_sum_witness:
  "Image_get sample_landsat ''REFLECTANCE_MULT_BAND_4'' = Some (PNum (11 / 400000))
   \<and> Image_get sample_landsat ''REFLECTANCE_ADD_BAND_4'' = Some (PNum (- 1 / 5))
   \<and> map_of (bands sample_landsat) ''SR_B5'' = Some (\<lambda>p. Some 20000)
   \<and> map_of (bands sample_landsat) ''SR_B4'' = Some (\<lambda>p. Some 9000)
   \<and> map_of (bands sample_zero_sentinel) ''B8'' = Some (\<lambda>p. Some 0)
   \<and> map_of (bands sample_zero_sentinel) ''B4'' = Some (\<lambda>p. Some 0)
   \<and> (\<exists>outL. processLandsat nd_zero_masked sample_landsat = Inr outL)
   \<and> (\<exists>outS. processSentinel nd_zero_masked sample_zero_sentinel = Inr outS)
   \<and> (\<exists>v. result_pixel (processLandsat nd_zero_masked sample_landsat) ''ndvi'' (0, 0) = Inr (Some v)
          \<and> - 1 \<le> v \<and> v \<le> 1)
   \<and> result_pixel (processSentinel nd_zero_masked sample_zero_sentinel) ''ndvi'' (0, 0) = Inr None"
proof -
  note L = sample_landsat_fields and Z = sample_zero_sentinel_fields
  note t = ndvi_range_and_zero_sum [OF L Z, of nd_zero_masked]
  from t have o1: "\<exists>outL. processLandsat nd_zero_masked sample_landsat = Inr outL"
    by (elim conjE) assumption
  from t have o2: "\<exists>outS. processSentinel nd_zero_masked sample_zero_sentinel = Inr outS"
    by (elim conjE) assumption
  from t have fL: "\<forall>p (n :: rat) (r :: rat). Some 20000 = Some n \<and> Some 9000 = Some r
                  \<and> 0 \<le> n * (11 / 400000) + (- 1 / 5) \<and> 0 \<le> r * (11 / 400000) + (- 1 / 5)
                  \<and> 0 < (n * (11 / 400000) + (- 1 / 5)) + (r * (11 / 400000) + (- 1 / 5))
                \<longrightarrow> (\<exists>v. result_pixel (processLandsat nd_zero_masked sample_landsat) ''ndvi'' p
                            = Inr (Some v) \<and> - 1 \<le> v \<and> v \<le> 1)"
    by (elim conjE) assumption
  from t have zS: "\<forall>p (n :: rat) (r :: rat). Some 0 = Some n \<and> Some 0 = Some r
                  \<and> 0 \<le> n * (1 / 10000) \<and> 0 \<le> r * (1 / 10000)
                  \<and> n * (1 / 10000) + r * (1 / 10000) = 0
                \<longrightarrow> result_pixel (processSentinel nd_zero_masked sample_zero_sentinel) ''ndvi'' p
                      = Inr nd_zero_masked
                    \<and> result_pixel (processSentinel nd_zero_masked sample_zero_sentinel) ''ndvi'' p
                      = Inr None"
    by (elim conjE) assumption
  from fL [rule_format, of 20000 9000 "(0, 0)"]
  have v: "\<exists>v. result_pixel (processLandsat nd_zero_masked sample_landsat) ''ndvi'' (0, 0) = Inr (Some v)
          \<and> - 1 \<le> v \<and> v \<le> 1"
    by simp
  from zS [rule_format, of 0 0 "(0, 0)"]
  have z: "result_pixel (processSentinel nd_zero_masked sample_zero_sentinel) ''ndvi'' (0, 0) = Inr None"
    by (simp add: nd_zero_masked_def)
  from L Z o1 o2 v z show ?thesis by blast
qed

text \<open>
  Claim C5. The aggregator returns its twelve composites for every collection of NDVI
  rasters. The composite of month \<open>m\<close> has the one band \<open>ndvi\<close>, and it is, pixel by
  pixel, the median over the rasters whose timestamp falls in calendar month \<open>m\<close>,
  whatever their year. When no raster falls in the month, every pixel of the band is
  masked (the reduction of no image is \<open>median_of_none\<close>).
\<close>

theorem monthly_composite_median:
  assumes "ndvi_rasters c" and "1 \<le> m" and "m \<le> 12"
  shows "\<exists>comps. computeMonthlyNDVI s c = Inr comps
          \<and> length comps = 12
          \<and> bandNames (comps ! nat (m - 1)) = [''ndvi'']
          \<and> (\<forall>p. pixel_at (comps ! nat (m - 1)) ''ndvi'' p
                  = Inr (median_list
                           (pixel_values (filter (\<lambda>img. image_month img = Some m) c) ''ndvi'' p)))
          \<and> (filter (\<lambda>img. image_month img = Some m) c = [] \<longrightarrow>
                (\<forall>p. pixel_at (comps ! nat (m - 1)) ''ndvi'' p = Inr None))"
proof -
  let ?sub = "filter (\<lambda>img. image_month img = Some m) c"
  from computeMonthlyNDVI_total [OF assms(1)] obtain comps
    where comps: "computeMonthlyNDVI s c = Inr comps" by blast
  let ?mc = "comps ! nat (m - 1)"
  have len: "length comps = 12"
    by (rule computeMonthlyNDVI_nth(1) [OF comps])
  have mc: "monthlyComposite s c m = Inr ?mc"
    by (rule computeMonthlyNDVI_nth(2) [OF comps assms(2,3)])
  have b: "bands ?mc = [(''ndvi'', \<lambda>p. median_list (pixel_values ?sub ''ndvi'' p))]"
    using composite_bands [OF assms(1) mc] by (simp add: month_subset_def)
  have names: "bandNames ?mc = [''ndvi'']"
    by (simp add: bandNames_def b)
  have px: "\<forall>p. pixel_at ?mc ''ndvi'' p = Inr (median_list (pixel_values ?sub ''ndvi'' p))"
    by (simp add: pixel_at_def b)
  have empty: "?sub = [] \<longrightarrow> (\<forall>p. pixel_at ?mc ''ndvi'' p = Inr None)"
    by (simp add: pixel_at_def b pixel_values_def map_filter_simps median_list_def)
  from comps len names px empty show ?thesis by blast
qed

theorem monthly_composite_median_witness:
  "ndvi_rasters [sample_ndvi 1641081600000 (1 / 4), sample_ndvi 1672617600000 1,
                 sample_ndvi 1643500800000 (1 / 2), sample_ndvi 1646092800000 (9 / 10)]
   \<and> map image_month [sample_ndvi 1641081600000 (1 / 4), sample_ndvi 1672617600000 1,
                        sample_ndvi 1643500800000 (1 / 2), sample_ndvi 1646092800000 (9 / 10)]
       = [Some 1, Some 1, Some 1, Some 3]
   \<and> map (\<lambda>r. map_option (\<lambda>t. year (date_of_millis t)) (timestamp_of r))
         [sample_ndvi 1641081600000 (1 / 4), sample_ndvi 1672617600000 1,
          sample_ndvi 1643500800000 (1 / 2), sample_ndvi 1646092800000 (9 / 10)]
       = [Some 2022, Some 2023, Some 2022, Some 2022]
   \<and> (\<exists>comps. computeMonthlyNDVI (init :: unit app_state)
                  [sample_ndvi 1641081600000 (1 / 4), sample_ndvi 1672617600000 1,
                   sample_ndvi 1643500800000 (1 / 2), sample_ndvi 1646092800000 (9 / 10)] = Inr comps
         \<and> length comps = 12
         \<and> pixel_at (comps ! 0) ''ndvi'' (0, 0) = Inr (Some (1 / 2))
         \<and> bandNames (comps ! 1) = [''ndvi'']
         \<and> pixel_at (comps ! 1) ''ndvi'' (0, 0) = Inr None
         \<and> pixel_at (comps ! 2) ''ndvi'' (0, 0) = Inr (Some (9 / 10)))"
proof -
  let ?a = "sample_ndvi 1641081600000 (1 / 4)" and ?b = "sample_ndvi 1672617600000 1"
  let ?d = "sample_ndvi 1643500800000 (1 / 2)" and ?e = "sample_ndvi 1646092800000 (9 / 10)"
  let ?c = "[?a, ?b, ?d, ?e]"
  have h: "ndvi_rasters ?c"
    by (simp add: ndvi_rasters_def sample_ndvi_def bandNames_def)
  have ts: "timestamp_of (sample_ndvi t v) = Some t" for t v
    by (simp add: timestamp_of_def Image_get_def sample_ndvi_def)
  have ms: "map image_month ?c = [Some 1, Some 1, Some 1, Some 3]"
    by (simp add: image_month_def ts sample_dates)
  have yrs: "year (date_of_millis 1641081600000) = 2022" "year (date_of_millis 1672617600000) = 2023"
    "year (date_of_millis 1643500800000) = 2022" "year (date_of_millis 1646092800000) = 2022"
    by code_simp+
  have ys: "map (\<lambda>r. map_option (\<lambda>t. year (date_of_millis t)) (timestamp_of r)) ?c
              = [Some 2022, Some 2023, Some 2022, Some 2022]"
    by (simp add: ts yrs)
  have sub1: "filter (\<lambda>img. image_month img = Some 1) ?c = [?a, ?b, ?d]"
    and sub2: "filter (\<lambda>img. image_month img = Some 2) ?c = []"
    and sub3: "filter (\<lambda>img. image_month img = Some 3) ?c = [?e]"
    using ms by simp_all
  have vals: "pixel_values [?a, ?b, ?d] ''ndvi'' (0, 0) = [1 / 4, 1, 1 / 2]"
    "pixel_values [?e] ''ndvi'' (0, 0) = [9 / 10]"
    by (simp_all add: pixel_values_def map_filter_simps pixel_at_def sample_ndvi_def)
  have srt: "sort [1 / 4, 1, 1 / 2 :: rat] = [1 / 4, 1 / 2, 1]"
    by (simp add: insort_key.simps)
  have med: "median_list [1 / 4, 1, 1 / 2] = Some (1 / 2)" "median_list [9 / 10] = Some (9 / 10)"
    unfolding median_list_def srt by (simp_all add: numeral_3_eq_3)
  have b1: "(1 :: int) \<le> 1" "(1 :: int) \<le> 12" and b2: "(1 :: int) \<le> 2" "(2 :: int) \<le> 12"
    and b3: "(1 :: int) \<le> 3" "(3 :: int) \<le> 12"
    by simp_all
  from monthly_composite_median [OF h b1, of init, unfolded sub1] obtain comps
    where c: "computeMonthlyNDVI (init :: unit app_state) ?c = Inr comps"
      and l: "length comps = 12"
      and a: "\<forall>p. pixel_at (comps ! nat (1 - 1)) ''ndvi'' p
                   = Inr (median_list (pixel_values [?a, ?b, ?d] ''ndvi'' p))"
    by blast
  from a [rule_format, of "(0, 0)"] have v: "pixel_at (comps ! 0) ''ndvi'' (0, 0) = Inr (Some (1 / 2))"
    by (simp add: vals med)
  from monthly_composite_median [OF h b2, of init, unfolded sub2] obtain comps'
    where c': "computeMonthlyNDVI (init :: unit app_state) ?c = Inr comps'"
      and e': "bandNames (comps' ! nat (2 - 1)) = [''ndvi'']"
              "[] = ([] :: image list) \<longrightarrow> (\<forall>p. pixel_at (comps' ! nat (2 - 1)) ''ndvi'' p = Inr None)"
    by blast
  from c c' have "comps' = comps" by simp
  with e' have e: "bandNames (comps ! 1) = [''ndvi'']" "pixel_at (comps ! 1) ''ndvi'' (0, 0) = Inr None"
    by simp_all
  from monthly_composite_median [OF h b3, of init, unfolded sub3] obtain comps''
    where c'': "computeMonthlyNDVI (init :: unit app_state) ?c = Inr comps''"
      and a'': "\<forall>p. pixel_at (comps'' ! nat (3 - 1)) ''ndvi'' p
                   = Inr (median_list (pixel_values [?e] ''ndvi'' p))"
    by blast
  from c c'' have "comps'' = comps" by simp
  with a'' [rule_format, of "(0, 0)"]
  have w: "pixel_at (comps ! 2) ''ndvi'' (0, 0) = Inr (Some (9 / 10))"
    by (simp add: vals med)
  from h ms ys c l v e w show ?thesis by blast
qed

text \<open>
  Claim C6. When Run Analysis is pressed while the drawing tools hold no layer, the
  callback shows the alert and returns: the state is the old state with the alert added,
  so the points, the point counter, the stored area and the selected year are unchanged.
\<close>

theorem run_without_aoi_blocked:
  assumes "drawing_layers (theMap s) = []"
  shows "runAnalysisButton_onClick bk s
           = s\<lparr>alerts := alerts s @ [''Please draw an AOI before running the analysis.'']\<rparr>
         \<and> points (runAnalysisButton_onClick bk s) = points s
         \<and> pointCounter (runAnalysisButton_onClick bk s) = pointCounter s
         \<and> userAOI (runAnalysisButton_onClick bk s) = userAOI s
         \<and> startYear (runAnalysisButton_onClick bk s) = startYear s
         \<and> console (runAnalysisButton_onClick bk s) = console s"
  using assms by (simp add: runAnalysisButton_onClick_def ui_alert_def)

theorem run_without_aoi_blocked_witness:
  "drawing_layers (theMap (init :: unit app_state)) = []
   \<and> runAnalysisButton_onClick sample_backend init
       = init\<lparr>alerts := [''Please draw an AOI before running the analysis.'']\<rparr>
   \<and> points (runAnalysisButton_onClick sample_backend init) = []
   \<and> pointCounter (runAnalysisButton_onClick sample_backend init) = 0
   \<and> userAOI (runAnalysisButton_onClick sample_backend init) = None
   \<and> startYear (runAnalysisButton_onClick sample_backend init) = 2022"
proof -
  have h: "drawing_layers (theMap (init :: unit app_state)) = []"
    by (simp add: init_def)
  from run_without_aoi_blocked [OF h, of sample_backend] h show ?thesis
    by (simp add: init_def)
qed

text \<open>
  Claim C7. \<open>performNDVIAnalysis\<close> adds no chart by region when the collection of points
  is empty, and otherwise one chart by region over the points: it has one series for
  each point, labelled with the point's \<open>name\<close> property. The names of the points that
  the script collects, after any sequence of events, are distinct.
\<close>

theorem point_series:
  "regionCharts (controlPanel (performNDVIAnalysis bk aoi yr pts s))
     = regionCharts (controlPanel s)
       @ (if pts = [] then [] else [pointsChart (monthlyNDVI bk aoi yr s) pts])
   \<and> seriesLabels (pointsChart (monthlyNDVI bk aoi yr s) pts)
       = map (\<lambda>f. map_of (properties f) ''name'') pts
   \<and> length (seriesLabels (pointsChart (monthlyNDVI bk aoi yr s) pts)) = length pts
   \<and> distinct (seriesLabels (pointsChart (monthlyNDVI bk aoi yr s) (points (run_events bk init es))))"
proof -
  have l: "seriesLabels (pointsChart m ps) = pointNames ps" for m and ps :: "'a feature list"
    by (simp add: seriesLabels_def pointsChart_def pointNames_def)
  have "regionCharts (controlPanel (performNDVIAnalysis bk aoi yr pts s))
     = regionCharts (controlPanel s)
       @ (if pts = [] then [] else [pointsChart (monthlyNDVI bk aoi yr s) pts])"
    unfolding performNDVIAnalysis_panel
    by (simp add: regionCharts_append export_widgets_def split: sum.splits)
  then show ?thesis
    unfolding l using reachable_names_distinct [of bk es]
    by (simp add: pointNames_def)
qed

theorem point_series_witness:
  "regionCharts (controlPanel (performNDVIAnalysis sample_backend (Drawn ()) 2022 [] sample_state)) = []
   \<and> regionCharts (controlPanel (performNDVIAnalysis sample_backend (Drawn ()) 2022
                                    [pointFeature 51 35 1, pointFeature 52 36 2] sample_state))
       = [pointsChart (monthlyNDVI sample_backend (Drawn ()) 2022 sample_state)
            [pointFeature 51 35 1, pointFeature 52 36 2]]
   \<and> seriesLabels (pointsChart (monthlyNDVI sample_backend (Drawn ()) 2022 sample_state)
                      [pointFeature 51 35 1, pointFeature 52 36 2 :: unit feature])
       = [Some (PStr ''Point 1''), Some (PStr ''Point 2'')]
   \<and> distinct (seriesLabels (pointsChart (monthlyNDVI sample_backend (Drawn ()) 2022 sample_state)
         (points (run_events sample_backend init
                    [AddPointsPressed, MapClicked 51 35, MapClicked 52 36]))))"
proof -
  have d: "decimal (Suc 0) = ''1''" "decimal 2 = ''2''"
    by code_simp+
  have p: "regionCharts (controlPanel sample_state) = []"
    by (simp add: sample_state_fields init_panel_charts)
  from point_series [of sample_backend "Drawn ()" 2022 "[]" sample_state
      "[AddPointsPressed, MapClicked 51 35, MapClicked 52 36]"]
  have D: "distinct (seriesLabels (pointsChart (monthlyNDVI sample_backend (Drawn ()) 2022 sample_state)
         (points (run_events sample_backend init
                    [AddPointsPressed, MapClicked 51 35, MapClicked 52 36]))))"
    by blast
  from point_series [of sample_backend "Drawn ()" 2022 "[]" sample_state]
  have A: "regionCharts (controlPanel (performNDVIAnalysis sample_backend (Drawn ()) 2022 [] sample_state)) = []"
    by (simp add: p)
  note T = point_series [of sample_backend "Drawn ()" 2022 "[pointFeature 51 35 1, pointFeature 52 36 2]" sample_state]
  from T have B: "regionCharts (controlPanel (performNDVIAnalysis sample_backend (Drawn ()) 2022
                                    [pointFeature 51 35 1, pointFeature 52 36 2] sample_state))
       = [pointsChart (monthlyNDVI sample_backend (Drawn ()) 2022 sample_state)
            [pointFeature 51 35 1, pointFeature 52 36 2]]"
    by (simp add: p)
  from T have C: "seriesLabels (pointsChart (monthlyNDVI sample_backend (Drawn ()) 2022 sample_state)
                      [pointFeature 51 35 1, pointFeature 52 36 2 :: unit feature])
       = [Some (PStr ''Point 1''), Some (PStr ''Point 2'')]"
    by (simp add: pointFeature_def d)
  from A B C D show ?thesis by blast
qed

text \<open>
  Claim C8. An image produced by \<open>processLandsat\<close> or \<open>processSentinel\<close> has the one
  band \<open>ndvi\<close> and every property of its source, so the timestamp and the index of the
  source survive. Every raster of the collection that a run aggregates has the band
  \<open>ndvi\<close> and a timestamp, which lies in the selected year.
\<close>

theorem ndvi_raster_schema:
  "(processLandsat zero img = Inr out \<longrightarrow>
      bandNames out = [''ndvi''] \<and> (\<forall>k. Image_get out k = Image_get img k)
      \<and> timestamp_of out = timestamp_of img)
   \<and> (processSentinel zero img = Inr out \<longrightarrow>
      bandNames out = [''ndvi''] \<and> (\<forall>k. Image_get out k = Image_get img k)
      \<and> timestamp_of out = timestamp_of img)
   \<and> (ndviCollection bk aoi yr = Inr c \<longrightarrow>
      (\<forall>r \<in> set c. bandNames r = [''ndvi'']
         \<and> (\<exists>t. timestamp_of r = Some t
                \<and> Date_millis (Date_fromYMD yr 1 1) \<le> t
                \<and> t < Date_millis (Date_fromYMD (yr + 1) 1 1))))"
  using processLandsat_schema [of zero img out] processSentinel_schema [of zero img out]
    ndviCollection_elems [of bk aoi yr c]
  by blast

theorem ndvi_raster_schema_witness:
  "processLandsat None sample_landsat = Inr sample_landsat_ndvi
   \<and> bandNames sample_landsat_ndvi = [''ndvi'']
   \<and> Image_get sample_landsat_ndvi ''system:index'' = Some (PStr ''LC08_sample'')
   \<and> timestamp_of sample_landsat_ndvi = Some 1641081600000
   \<and> processSentinel None sample_sentinel = Inr sample_sentinel_ndvi
   \<and> bandNames sample_sentinel_ndvi = [''ndvi'']
   \<and> Image_get sample_sentinel_ndvi ''system:index'' = Some (PStr ''S2_sample'')
   \<and> timestamp_of sample_sentinel_ndvi = Some 1643673600000
   \<and> ndviCollection sample_backend (Drawn ()) 2022 = Inr [sample_landsat_ndvi, sample_sentinel_ndvi]
   \<and> Date_millis (Date_fromYMD 2022 1 1) \<le> 1641081600000
   \<and> 1643673600000 < Date_millis (Date_fromYMD (2022 + 1) 1 1)"
proof -
  let ?c = "[sample_landsat_ndvi, sample_sentinel_ndvi]"
  note L = ndvi_raster_schema [of None sample_landsat sample_landsat_ndvi sample_backend "Drawn ()" 2022 ?c]
  note S = ndvi_raster_schema [of None sample_sentinel sample_sentinel_ndvi sample_backend "Drawn ()" 2022 ?c]
  have iL: "Image_get sample_landsat ''system:index'' = Some (PStr ''LC08_sample'')"
    by (simp add: Image_get_def sample_landsat_def)
  have iS: "Image_get sample_sentinel ''system:index'' = Some (PStr ''S2_sample'')"
    by (simp add: Image_get_def sample_sentinel_def)
  from L sample_processLandsat
  have 1: "bandNames sample_landsat_ndvi = [''ndvi'']"
    and 2: "Image_get sample_landsat_ndvi ''system:index'' = Some (PStr ''LC08_sample'')"
    and 3: "timestamp_of sample_landsat_ndvi = Some 1641081600000"
    by (simp_all add: iL sample_timestamps)
  from S sample_processSentinel
  have 4: "bandNames sample_sentinel_ndvi = [''ndvi'']"
    and 5: "Image_get sample_sentinel_ndvi ''system:index'' = Some (PStr ''S2_sample'')"
    and 6: "timestamp_of sample_sentinel_ndvi = Some 1643673600000"
    by (simp_all add: iS sample_timestamps)
  from L sample_ndviCollection
  have "\<forall>r \<in> set ?c. \<exists>t. timestamp_of r = Some t
                \<and> Date_millis (Date_fromYMD 2022 1 1) \<le> t
                \<and> t < Date_millis (Date_fromYMD (2022 + 1) 1 1)"
    by blast
  then have 7: "Date_millis (Date_fromYMD 2022 1 1) \<le> 1641081600000"
    and 8: "1643673600000 < Date_millis (Date_fromYMD (2022 + 1) 1 1)"
    by (simp_all add: 3 6)
  from sample_processLandsat sample_processSentinel sample_ndviCollection 1 2 3 4 5 6 7 8
  show ?thesis by blast
qed

text \<open>
  Claim C9. A run with an area drawn, whose collection of NDVI rasters is computed, adds
  one download request: for the format GeoTIFF, the scale 30 and the drawn area. Its
  image has twelve bands, one for each monthly composite in the order of the months 1 to
  12: band \<open>m\<close> holds the median of month \<open>m\<close> clipped to the area, and is named after the
  id of the composite, \<open>YYYY-MM_ndvi\<close> for the year after the selected one. A month
  without rasters contributes its masked band (see \<open>median_of_none\<close>).
\<close>

theorem export_request:
  assumes "drawing_layers (theMap s) = aoi # rest"
      and "ndviCollection bk aoi (startYear s) = Inr c"
  shows "\<exists>img. downloadRequests (controlPanel (runAnalysisButton_onClick bk s))
                 = downloadRequests (controlPanel s)
                   @ [\<lparr>dl_image = img, dl_format = ''GeoTIFF'', dl_scale = 30, dl_region = aoi\<rparr>]
              \<and> length (bands img) = 12
              \<and> map snd (bands img)
                  = map (clipped_median bk aoi c) [1, 2, 3, 4, 5, 6, 7, 8, 9, 10, 11, 12]
              \<and> map fst (bands img)
                  = map (\<lambda>m. Date_format_YYYY_MM (Date_fromYMD (startYear s + 1) m 1) @ ''_ndvi'')
                      [1, 2, 3, 4, 5, 6, 7, 8, 9, 10, 11, 12]"
proof -
  have c: "ndvi_rasters c" by (rule ndviCollection_ndvi_rasters [OF assms(2)])
  from computeMonthlyNDVI_total [OF c] obtain comps
    where comps: "computeMonthlyNDVI s c = Inr comps" by blast
  let ?img = "Image_clip bk aoi (toBands comps)"
  have b: "map snd (bands ?img)
             = map (clipped_median bk aoi c) [1, 2, 3, 4, 5, 6, 7, 8, 9, 10, 11, 12]"
    using export_bands [OF c comps] unfolding months_1_12 .
  have n: "map fst (bands ?img)
             = map (\<lambda>m. Date_format_YYYY_MM (Date_fromYMD (startYear s + 1) m 1) @ ''_ndvi'')
                 [1, 2, 3, 4, 5, 6, 7, 8, 9, 10, 11, 12]"
    using export_band_names [OF c comps] unfolding months_1_12 .
  from arg_cong [OF b, of length] have l: "length (bands ?img) = 12"
    by simp
  from run_download_requests [OF assms comps] b n l
  show ?thesis by blast
qed

theorem export_request_witness:
  "drawing_layers (theMap sample_state) = [Drawn ()]
   \<and> ndviCollection sample_backend (Drawn ()) (startYear sample_state)
       = Inr [sample_landsat_ndvi, sample_sentinel_ndvi]
   \<and> map image_month [sample_landsat_ndvi, sample_sentinel_ndvi] = [Some 1, Some 2]
   \<and> (\<exists>img. downloadRequests (controlPanel (runAnalysisButton_onClick sample_backend sample_state))
                 = [\<lparr>dl_image = img, dl_format = ''GeoTIFF'', dl_scale = 30, dl_region = Drawn ()\<rparr>]
              \<and> length (bands img) = 12
              \<and> map (\<lambda>b. b (0, 0)) (map snd (bands img))
                  = [Some (121 / 159), Some (2 / 3), None, None, None, None,
                     None, None, None, None, None, None]
              \<and> map fst (bands img)
                  = [''2023-01_ndvi'', ''2023-02_ndvi'', ''2023-03_ndvi'', ''2023-04_ndvi'',
                     ''2023-05_ndvi'', ''2023-06_ndvi'', ''2023-07_ndvi'', ''2023-08_ndvi'',
                     ''2023-09_ndvi'', ''2023-10_ndvi'', ''2023-11_ndvi'', ''2023-12_ndvi''])"
proof -
  let ?c = "[sample_landsat_ndvi, sample_sentinel_ndvi]"
  have h: "drawing_layers (theMap sample_state) = Drawn () # []"
    by (rule sample_state_fields)
  have c: "ndviCollection sample_backend (Drawn ()) (startYear sample_state) = Inr ?c"
    by (simp add: sample_state_fields sample_ndviCollection)
  have p: "downloadRequests (controlPanel sample_state) = []"
    by (simp add: sample_state_fields init_panel_charts)
  have ms: "map image_month ?c = [Some 1, Some 2]"
    by (simp add: sample_image_months)
  from export_request [OF h c, unfolded p sample_state_fields(2)] obtain img where
        r: "downloadRequests (controlPanel (runAnalysisButton_onClick sample_backend sample_state))
              = [] @ [\<lparr>dl_image = img, dl_format = ''GeoTIFF'', dl_scale = 30, dl_region = Drawn ()\<rparr>]"
    and l: "length (bands img) = 12"
    and b: "map snd (bands img)
              = map (clipped_median sample_backend (Drawn ()) ?c) [1, 2, 3, 4, 5, 6, 7, 8, 9, 10, 11, 12]"
    and n: "map fst (bands img)
              = map (\<lambda>m. Date_format_YYYY_MM (Date_fromYMD (2022 + 1) m 1) @ ''_ndvi'')
                  [1, 2, 3, 4, 5, 6, 7, 8, 9, 10, 11, 12]"
    by blast
  have v: "map (\<lambda>b. b (0, 0)) (map snd (bands img))
             = [Some (121 / 159), Some (2 / 3), None, None, None, None,
                None, None, None, None, None, None]"
    unfolding b by (simp add: sample_clipped_medians)
  have f: "map fst (bands img)
             = [''2023-01_ndvi'', ''2023-02_ndvi'', ''2023-03_ndvi'', ''2023-04_ndvi'',
                ''2023-05_ndvi'', ''2023-06_ndvi'', ''2023-07_ndvi'', ''2023-08_ndvi'',
                ''2023-09_ndvi'', ''2023-10_ndvi'', ''2023-11_ndvi'', ''2023-12_ndvi'']"
    unfolding n by (simp add: sample_band_ids)
  from h c ms r l v f show ?thesis by simp
qed

text \<open>
  Claim C10. Every press of the Add Points button registers one more click listener.
  Starting from a state without listeners, after \<open>n\<close> presses one click on the map
  raises the point counter by \<open>n\<close> and appends \<open>n\<close> features, named
  \<open>Point c+1\<close>, ..., \<open>Point c+n\<close> for the old counter \<open>c\<close>; the names are distinct.
\<close>

theorem stacked_click_handlers:
  assumes "onClick_listeners (theMap s) = []"
  shows "pointCounter (run_events bk s (replicate n AddPointsPressed @ [MapClicked lon lat]))
           = pointCounter s + n
       \<and> points (run_events bk s (replicate n AddPointsPressed @ [MapClicked lon lat]))
           = points s @ map (\<lambda>i. pointFeature lon lat (pointCounter s + 1 + i)) [0..<n]
       \<and> length (points (run_events bk s (replicate n AddPointsPressed @ [MapClicked lon lat])))
           = length (points s) + n
       \<and> distinct (map (\<lambda>i. ''Point '' @ decimal (pointCounter s + 1 + i)) [0..<n])"
proof -
  let ?s = "(addPointButton_onClick ^^ n) s"
  have r: "run_events bk s (replicate n AddPointsPressed @ [MapClicked lon lat]) = mapClick lon lat ?s"
    using run_presses [of bk s n] by (simp add: run_events_def)
  have l: "onClick_listeners (theMap ?s) = replicate n AddPointCallback"
    using addPointButton_presses [of n s] assms by simp
  have f: "pointCounter ?s = pointCounter s" "points ?s = points s"
    using addPointButton_presses [of n s] by simp_all
  show ?thesis
    unfolding r mapClick_def l
    using fold_addPoint [of lon lat n ?s] pointNames_distinct [of "pointCounter s" n]
    by (simp add: f)
qed

theorem stacked_click_handlers_witness:
  "onClick_listeners (theMap (init :: unit app_state)) = []
   \<and> pointCounter (run_events sample_backend init
                      [AddPointsPressed, AddPointsPressed, MapClicked (51 / 2) 35]) = 2
   \<and> points (run_events sample_backend init
                [AddPointsPressed, AddPointsPressed, MapClicked (51 / 2) 35])
       = [\<lparr>geometry = Point (51 / 2) 35, properties = [(''name'', PStr ''Point 1'')]\<rparr>,
          \<lparr>geometry = Point (51 / 2) 35, properties = [(''name'', PStr ''Point 2'')]\<rparr>]
   \<and> distinct [''Point 1'', ''Point 2'']"
proof -
  let ?es = "[AddPointsPressed, AddPointsPressed, MapClicked (51 / 2) 35 :: unit event]"
  have h: "onClick_listeners (theMap (init :: unit app_state)) = []"
    by (simp add: init_def)
  have r: "replicate 2 AddPointsPressed @ [MapClicked (51 / 2) 35] = ?es"
    by (simp add: numeral_2_eq_2)
  have u: "[0..<2] = [0, 1]" by (simp add: numeral_2_eq_2)
  have d: "decimal (Suc 0) = ''1''" "decimal (Suc (Suc 0)) = ''2''"
    by code_simp+
  have i: "pointCounter (init :: unit app_state) = 0" "points (init :: unit app_state) = []"
    by (simp_all add: init_def)
  note T = stacked_click_handlers [OF h, of sample_backend 2 "51 / 2" 35, unfolded r u i]
  from T have A: "pointCounter (run_events sample_backend init ?es) = 2" by simp
  from T have B: "points (run_events sample_backend init ?es)
       = [\<lparr>geometry = Point (51 / 2) 35, properties = [(''name'', PStr ''Point 1'')]\<rparr>,
          \<lparr>geometry = Point (51 / 2) 35, properties = [(''name'', PStr ''Point 2'')]\<rparr>]"
    by (simp add: pointFeature_def d)
  from T have C: "distinct [''Point 1'', ''Point 2'']" by (simp add: d)
  from h A B C show ?thesis by blast
qed

end
